theory Spec2Isabelle
  imports Complex_Main "HOL-Library.Log_Nat" "HOL-Library.Word"
begin

section \<open>Python values\<close>

text \<open>
  The program (\<^verbatim>\<open>update_readme.py\<close>) works on the values that JSON decoding produces
  and on the numbers it derives from them. Strings are kept as the bytes of their UTF-8
  encoding: the program only compares, concatenates and writes them (in UTF-8), and all of
  these commute with the encoding.

  A Python \<^verbatim>\<open>float\<close> is an IEEE 754 binary64 number. A finite one is kept as a sign
  (\<open>True\<close> for negative, so that \<open>-0.0\<close> is a value of its own) and a magnitude.
\<close>

datatype pyfloat = Finite bool rat | Infinity bool | NaN

datatype pyval =
    PNone
  | PBool bool
  | PInt int
  | PFloat pyfloat
  | PStr string
  | PList "pyval list"
  | PDict "(string \<times> pyval) list"

text \<open>Exceptions: the built-in ones the program can meet, and \<^verbatim>\<open>Exception(msg)\<close>.\<close>

datatype pyerr =
    AttributeError
  | TypeError
  | ValueError
  | KeyError
  | OverflowError
  | ZeroDivisionError
  | MemoryError
  | UnicodeEncodeError
  | JSONDecodeError
  | RequestException
  | OSError
  | Exception string

definition and_then :: "pyerr + 'a \<Rightarrow> ('a \<Rightarrow> pyerr + 'b) \<Rightarrow> pyerr + 'b" where
  "and_then m f = (case m of Inl e \<Rightarrow> Inl e | Inr x \<Rightarrow> f x)"

section \<open>Binary64 arithmetic\<close>

text \<open>
  \<open>expo x\<close> is the binary exponent of a positive rational: \<open>2 powi expo x \<le> x < 2 powi (expo x + 1)\<close>.
  \<open>fl\<close> rounds a non-negative rational to the nearest binary64 value, ties to even,
  with 53 significant bits and gradual underflow below \<open>2 powi (-1022)\<close>; the
  exponent is not bounded above, and the callers test the result against \<open>2 ^ 1024\<close>.
\<close>

definition expo :: "rat \<Rightarrow> int" where
  "expo x = (let (p, q) = quotient_of x; d = bitlen p - bitlen q
             in if 2 powi d \<le> x then d else d - 1)"

definition round_half_even :: "rat \<Rightarrow> int" where
  "round_half_even r =
     (let f = \<lfloor>r\<rfloor>; d = r - of_int f
      in if d < 1 / 2 then f else if 1 / 2 < d then f + 1 else if even f then f else f + 1)"

definition quantum :: "rat \<Rightarrow> rat" where
  "quantum x = 2 powi (max (expo x) (- 1022) - 52)"

definition fl :: "rat \<Rightarrow> rat" where
  "fl x = quantum x * of_int (round_half_even (x / quantum x))"

definition float_limit :: rat where
  "float_limit = 2 ^ 1024"

text \<open>\<^verbatim>\<open>float(n)\<close> for an int: correctly rounded, OverflowError when too large.\<close>

definition float_of_int :: "int \<Rightarrow> pyerr + pyfloat" where
  "float_of_int n =
     (let m = fl (of_int \<bar>n\<bar>)
      in if m < float_limit then Inr (Finite (n < 0) m) else Inl OverflowError)"

text \<open>\<^verbatim>\<open>a / b\<close> for two ints: the correctly rounded quotient.\<close>

definition int_truediv :: "int \<Rightarrow> int \<Rightarrow> pyerr + pyfloat" where
  "int_truediv a b =
     (if b = 0 then Inl ZeroDivisionError
      else let m = fl (of_int \<bar>a\<bar> / of_int \<bar>b\<bar>)
           in if m < float_limit then Inr (Finite ((a < 0) \<noteq> (b < 0)) m)
              else Inl OverflowError)"

text \<open>\<^verbatim>\<open>x / y\<close> and \<^verbatim>\<open>x * y\<close> for two floats: IEEE results, overflow gives an infinity.\<close>

fun float_div :: "pyfloat \<Rightarrow> pyfloat \<Rightarrow> pyerr + pyfloat" where
  "float_div x (Finite t n) =
     (if n = 0 then Inl ZeroDivisionError
      else case x of
        Finite s m \<Rightarrow>
          (let r = fl (m / n)
           in if r < float_limit then Inr (Finite (s \<noteq> t) r) else Inr (Infinity (s \<noteq> t)))
      | Infinity s \<Rightarrow> Inr (Infinity (s \<noteq> t))
      | NaN \<Rightarrow> Inr NaN)"
| "float_div (Finite s m) (Infinity t) = Inr (Finite (s \<noteq> t) 0)"
| "float_div (Infinity s) (Infinity t) = Inr NaN"
| "float_div NaN (Infinity t) = Inr NaN"
| "float_div x NaN = Inr NaN"

fun float_mul :: "pyfloat \<Rightarrow> pyfloat \<Rightarrow> pyfloat" where
  "float_mul (Finite s m) (Finite t n) =
     (let r = fl (m * n)
      in if r < float_limit then Finite (s \<noteq> t) r else Infinity (s \<noteq> t))"
| "float_mul (Finite s m) (Infinity t) = (if m = 0 then NaN else Infinity (s \<noteq> t))"
| "float_mul (Infinity s) (Finite t n) = (if n = 0 then NaN else Infinity (s \<noteq> t))"
| "float_mul (Infinity s) (Infinity t) = Infinity (s \<noteq> t)"
| "float_mul NaN y = NaN"
| "float_mul x NaN = NaN"

definition signed_value :: "bool \<Rightarrow> rat \<Rightarrow> rat" where
  "signed_value s m = (if s then - m else m)"

fun float_lt :: "pyfloat \<Rightarrow> pyfloat \<Rightarrow> bool" where
  "float_lt NaN y = False"
| "float_lt x NaN = False"
| "float_lt (Infinity s) (Infinity t) = (s \<and> \<not> t)"
| "float_lt (Infinity s) (Finite t n) = s"
| "float_lt (Finite s m) (Infinity t) = (\<not> t)"
| "float_lt (Finite s m) (Finite t n) = (signed_value s m < signed_value t n)"

text \<open>The built-in \<^verbatim>\<open>min(a, b)\<close> keeps \<open>a\<close> unless \<open>b < a\<close>.\<close>

definition float_min :: "pyfloat \<Rightarrow> pyfloat \<Rightarrow> pyfloat" where
  "float_min a b = (if float_lt b a then b else a)"

section \<open>Numbers to text\<close>

definition digit_char :: "nat \<Rightarrow> char" where
  "digit_char d = char_of (48 + d)"

function nat_str :: "nat \<Rightarrow> string" where
  "nat_str n = (if n < 10 then [digit_char n] else nat_str (n div 10) @ [digit_char (n mod 10)])"
  by pat_completeness auto
termination
  by (relation "measure id") auto

definition int_str :: "int \<Rightarrow> string" where
  "int_str i = (if i < 0 then ''-'' @ nat_str (nat (- i)) else nat_str (nat i))"

text \<open>The format \<^verbatim>\<open>.1f\<close>: the exact value rounded to one decimal, ties to even.\<close>

fun float_format_f1 :: "pyfloat \<Rightarrow> string" where
  "float_format_f1 (Finite s m) =
     (let n = nat (round_half_even (m * 10))
      in (if s then ''-'' else []) @ nat_str (n div 10) @ ''.'' @ nat_str (n mod 10))"
| "float_format_f1 (Infinity s) = (if s then ''-inf'' else ''inf'')"
| "float_format_f1 NaN = ''nan''"

section \<open>The interpreter\<close>

text \<open>
  Some of what the program does is the interpreter's and is not fixed by the program:
  what \<^verbatim>\<open>str\<close> and \<^verbatim>\<open>format\<close> print for a float (the shortest decimal that reads
  back), for a list or a dict (their \<^verbatim>\<open>repr\<close>, which can raise) and for a built-in
  exception; how long a string the memory can hold; and the largest number of digits
  that an int may have when it is converted to text (\<^verbatim>\<open>sys.get_int_max_str_digits()\<close>).
  The functions that depend on these take them as a parameter and hold for every choice
  of it.
\<close>

record pyruntime =
  float_repr :: "pyfloat \<Rightarrow> string"
  float_format_comma :: "pyfloat \<Rightarrow> string"
  container_repr :: "pyval \<Rightarrow> pyerr + string"
  builtin_message :: "pyerr \<Rightarrow> string"
  max_repeat :: nat
  int_max_str_digits :: nat

text \<open>
  The limit on the digits of an int is \<open>0\<close> (no limit, as before Python 3.11) or at least
  640: the interpreter accepts no other setting.
\<close>

definition digit_limit :: "pyruntime \<Rightarrow> nat" where
  "digit_limit rt = (if int_max_str_digits rt = 0 then 0 else max 640 (int_max_str_digits rt))"

text \<open>The decimal text of an int: ValueError when it has more digits than the limit.\<close>

definition int_text :: "pyruntime \<Rightarrow> int \<Rightarrow> pyerr + string" where
  "int_text rt i =
     (if digit_limit rt \<noteq> 0 \<and> digit_limit rt < length (nat_str (nat \<bar>i\<bar>))
      then Inl ValueError else Inr (int_str i))"

text \<open>
  \<open>max_repeat\<close> is the largest number of copies of a glyph of the progress bar that the
  memory of the interpreter can hold in one string (the two glyph literals have the same
  size). It is taken to be at least 65536 (such a string has a few hundred kilobytes; an
  interpreter that runs the program has them) and below \<open>2 ^ 48\<close> (beyond the memory of
  any machine). \<open>max_index\<close> is \<^verbatim>\<open>sys.maxsize\<close>, the largest length and index, on a
  64-bit build.
\<close>

definition repeat_limit :: "pyruntime \<Rightarrow> nat" where
  "repeat_limit rt = max 65536 (min (max_repeat rt) (2 ^ 48 - 1))"

definition max_index :: int where
  "max_index = 2 ^ 63 - 1"

text \<open>The length of a string in characters (code points), from its UTF-8 bytes.\<close>

definition code_points :: "string \<Rightarrow> nat" where
  "code_points s = length (filter (\<lambda>c. (of_char c :: nat) div 64 \<noteq> 2) s)"

text \<open>
  \<^verbatim>\<open>s * n\<close>: the count must be an index (OverflowError), a count below one gives the
  empty string, the length of the result must be an index (OverflowError), and the
  result must fit in memory (MemoryError).
\<close>

definition str_repeat :: "pyruntime \<Rightarrow> string \<Rightarrow> int \<Rightarrow> pyerr + string" where
  "str_repeat rt s n =
     (if n < - max_index - 1 \<or> max_index < n then Inl OverflowError
      else if n < 1 \<or> s = [] then Inr []
      else if max_index div n < int (code_points s) then Inl OverflowError
      else if repeat_limit rt < nat n then Inl MemoryError
      else Inr (concat (replicate (nat n) s)))"

text \<open>\<^verbatim>\<open>str(v)\<close>, which is also \<^verbatim>\<open>format(v, "")\<close> in an f-string.\<close>

fun py_str :: "pyruntime \<Rightarrow> pyval \<Rightarrow> pyerr + string" where
  "py_str rt PNone = Inr ''None''"
| "py_str rt (PBool b) = Inr (if b then ''True'' else ''False'')"
| "py_str rt (PInt i) = int_text rt i"
| "py_str rt (PFloat x) = Inr (float_repr rt x)"
| "py_str rt (PStr s) = Inr s"
| "py_str rt (PList xs) = container_repr rt (PList xs)"
| "py_str rt (PDict kvs) = container_repr rt (PDict kvs)"

text \<open>The digits of an int in groups of three, for the format \<^verbatim>\<open>,\<close>.\<close>

function group3 :: "string \<Rightarrow> string" where
  "group3 ds =
     (if length ds \<le> 3 then ds
      else group3 (take (length ds - 3) ds) @ '','' @ drop (length ds - 3) ds)"
  by pat_completeness auto
termination
  by (relation "measure length") auto

definition int_format_comma :: "pyruntime \<Rightarrow> int \<Rightarrow> pyerr + string" where
  "int_format_comma rt i =
     and_then (int_text rt \<bar>i\<bar>) (\<lambda>digits.
       Inr ((if i < 0 then ''-'' else []) @ group3 digits))"

text \<open>
  \<^verbatim>\<open>format(v, ",")\<close>: a number is grouped, a string refuses the separator
  (ValueError), and \<^verbatim>\<open>None\<close>, lists and dicts accept no format at all (TypeError).
\<close>

fun py_format_comma :: "pyruntime \<Rightarrow> pyval \<Rightarrow> pyerr + string" where
  "py_format_comma rt (PInt i) = int_format_comma rt i"
| "py_format_comma rt (PBool b) = int_format_comma rt (if b then 1 else 0)"
| "py_format_comma rt (PFloat x) = Inr (float_format_comma rt x)"
| "py_format_comma rt (PStr s) = Inl ValueError"
| "py_format_comma rt v = Inl TypeError"


section \<open>The progress bar\<close>

text \<open>
  \<open>percentage\<close> is the int \<open>0\<close> when \<open>total \<le> 0\<close> and a float otherwise, so the local
  variables of \<^verbatim>\<open>create_progress_bar\<close> are numbers of either kind.
\<close>

datatype number = IntNum int | FloatNum pyfloat

text \<open>\<^verbatim>\<open>x / total\<close> where \<open>total\<close> is an int and \<open>x\<close> any value.\<close>

fun truediv_int :: "pyval \<Rightarrow> int \<Rightarrow> pyerr + pyfloat" where
  "truediv_int (PInt a) n = int_truediv a n"
| "truediv_int (PBool b) n = int_truediv (if b then 1 else 0) n"
| "truediv_int (PFloat x) n = and_then (float_of_int n) (\<lambda>d. float_div x d)"
| "truediv_int v n = Inl TypeError"

text \<open>\<^verbatim>\<open>n * p\<close> (and \<^verbatim>\<open>p * n\<close>) for an int \<open>n\<close>.\<close>

fun int_times :: "int \<Rightarrow> number \<Rightarrow> pyerr + number" where
  "int_times n (IntNum k) = Inr (IntNum (n * k))"
| "int_times n (FloatNum x) = and_then (float_of_int n) (\<lambda>a. Inr (FloatNum (float_mul a x)))"

text \<open>\<^verbatim>\<open>int(x)\<close> truncates towards zero.\<close>

fun int_of_number :: "number \<Rightarrow> pyerr + int" where
  "int_of_number (IntNum k) = Inr k"
| "int_of_number (FloatNum (Finite s m)) = Inr (if s then - \<lfloor>m\<rfloor> else \<lfloor>m\<rfloor>)"
| "int_of_number (FloatNum (Infinity s)) = Inl OverflowError"
| "int_of_number (FloatNum NaN) = Inl ValueError"

fun format_f1 :: "number \<Rightarrow> pyerr + string" where
  "format_f1 (IntNum k) = and_then (float_of_int k) (\<lambda>x. Inr (float_format_f1 x))"
| "format_f1 (FloatNum x) = Inr (float_format_f1 x)"

text \<open>The two glyph literals of line 161, as the bytes the source file holds.\<close>

definition filled_glyph :: string where
  "filled_glyph = [CHR 0xC3, CHR 0xA2, CHR 0xE2, CHR 0x80, CHR 0x93, CHR 0xCB, CHR 0x86]"

definition empty_glyph :: string where
  "empty_glyph = [CHR 0xC3, CHR 0xA2, CHR 0xE2, CHR 0x80, CHR 0x93, CHR 0xE2, CHR 0x80, CHR 0x98]"

definition float_one :: pyfloat where
  "float_one = Finite False 1"

text \<open>
  The parameters \<^verbatim>\<open>total\<close> and \<^verbatim>\<open>length\<close> are written \<open>tot\<close> and \<open>len\<close>:
  both names are constants of the logic. The first parameter is the interpreter. In
  line 161 the run of filled glyphs is built first, then the run of empty ones.
\<close>

definition create_progress_bar :: "pyruntime \<Rightarrow> pyval \<Rightarrow> int \<Rightarrow> int \<Rightarrow> pyerr + string" where
  "create_progress_bar rt solved tot len =
     and_then
       (if 0 < tot
        then and_then (truediv_int solved tot) (\<lambda>q. Inr (FloatNum (float_min q float_one)))
        else Inr (IntNum 0))
       (\<lambda>percentage.
     and_then (int_times len percentage) (\<lambda>product.
     and_then (int_of_number product) (\<lambda>filled.
       let empty = len - filled
       in and_then (str_repeat rt filled_glyph filled) (\<lambda>filled_run.
          and_then (str_repeat rt empty_glyph empty) (\<lambda>empty_run.
            let bar = filled_run @ empty_run
            in and_then (int_times 100 percentage) (\<lambda>scaled.
               and_then (format_f1 scaled) (\<lambda>pct_text.
                 Inr (''`'' @ bar @ ''` '' @ pct_text @ ''%''))))))))"

section \<open>Dictionaries, truth values, iteration, rounding\<close>

text \<open>\<^verbatim>\<open>v.get(key, default)\<close>: only a dict has the method.\<close>

fun py_get :: "pyval \<Rightarrow> string \<Rightarrow> pyval \<Rightarrow> pyerr + pyval" where
  "py_get (PDict kvs) k d = Inr (case map_of kvs k of None \<Rightarrow> d | Some v \<Rightarrow> v)"
| "py_get v k d = Inl AttributeError"

fun truthy :: "pyval \<Rightarrow> bool" where
  "truthy PNone = False"
| "truthy (PBool b) = b"
| "truthy (PInt i) = (i \<noteq> 0)"
| "truthy (PFloat (Finite s m)) = (m \<noteq> 0)"
| "truthy (PFloat x) = True"
| "truthy (PStr s) = (s \<noteq> [])"
| "truthy (PList xs) = (xs \<noteq> [])"
| "truthy (PDict kvs) = (kvs \<noteq> [])"

text \<open>
  What a \<^verbatim>\<open>for\<close> loop runs over: the elements of a list, the keys of a dict, the
  characters of a string (here one item for each byte: the loop body fails on the first
  of them either way); anything else is not iterable.
\<close>

fun py_iter :: "pyval \<Rightarrow> pyerr + pyval list" where
  "py_iter (PList xs) = Inr xs"
| "py_iter (PDict kvs) = Inr (map (\<lambda>kv. PStr (fst kv)) kvs)"
| "py_iter (PStr s) = Inr (map (\<lambda>c. PStr [c]) s)"
| "py_iter v = Inl TypeError"

text \<open>
  \<^verbatim>\<open>round(x, 2)\<close>: an int is returned as it is, a float is rounded to the nearest
  decimal with two places (ties of the exact value to even) and that decimal is read back.
\<close>

fun float_round2 :: "pyfloat \<Rightarrow> pyerr + pyfloat" where
  "float_round2 (Finite s m) =
     (let r = fl (of_int (round_half_even (m * 100)) / 100)
      in if r < float_limit then Inr (Finite s r) else Inl OverflowError)"
| "float_round2 x = Inr x"

fun py_round2 :: "pyval \<Rightarrow> pyerr + pyval" where
  "py_round2 (PInt i) = Inr (PInt i)"
| "py_round2 (PBool b) = Inr (PInt (if b then 1 else 0))"
| "py_round2 (PFloat x) = and_then (float_round2 x) (\<lambda>r. Inr (PFloat r))"
| "py_round2 v = Inl TypeError"

section \<open>The extractor\<close>

record StatsRecord =
  username :: pyval
  ranking :: pyval
  total_solved :: pyval
  easy_solved :: pyval
  medium_solved :: pyval
  hard_solved :: pyval
  contest_rating :: pyval
  contests_attended :: pyval
  top_percentage :: pyval

text \<open>The loop of lines 83 to 94 over the difficulty breakdown.\<close>

fun assign_counts :: "pyval list \<Rightarrow> StatsRecord \<Rightarrow> pyerr + StatsRecord" where
  "assign_counts [] stats = Inr stats"
| "assign_counts (item # items) stats =
     and_then (py_get item ''difficulty'' (PStr [])) (\<lambda>difficulty.
     and_then (py_get item ''count'' (PInt 0)) (\<lambda>count.
       assign_counts items
         (if difficulty = PStr ''All'' then stats\<lparr>total_solved := count\<rparr>
          else if difficulty = PStr ''Easy'' then stats\<lparr>easy_solved := count\<rparr>
          else if difficulty = PStr ''Medium'' then stats\<lparr>medium_solved := count\<rparr>
          else if difficulty = PStr ''Hard'' then stats\<lparr>hard_solved := count\<rparr>
          else stats)))"

text \<open>The block of lines 96 to 100, entered when \<^verbatim>\<open>contest\<close> is truthy.\<close>

definition contest_fields :: "pyruntime \<Rightarrow> pyval \<Rightarrow> StatsRecord \<Rightarrow> pyerr + StatsRecord" where
  "contest_fields rt contest stats =
     (if truthy contest then
        and_then (py_get contest ''rating'' (PInt 0)) (\<lambda>rating.
        and_then (py_round2 rating) (\<lambda>rounded.
        and_then (py_get contest ''attendedContestsCount'' (PInt 0)) (\<lambda>attended.
        and_then (py_get contest ''topPercentage'' PNone) (\<lambda>top_pct.
        and_then
          (if truthy top_pct
           then and_then (py_round2 top_pct) (\<lambda>r.
                and_then (py_str rt r) (\<lambda>text. Inr (PStr (text @ ''%''))))
           else Inr (PStr ''N/A'')) (\<lambda>top_text.
          Inr (stats\<lparr>contest_rating := rounded, contests_attended := attended,
                      top_percentage := top_text\<rparr>))))))
      else Inr stats)"

definition parse_stats :: "pyruntime \<Rightarrow> pyval \<Rightarrow> pyerr + StatsRecord" where
  "parse_stats rt data =
     and_then (py_get data ''matchedUser'' (PDict [])) (\<lambda>user.
     and_then (py_get data ''userContestRanking'' (PDict [])) (\<lambda>contest.
     and_then (py_get user ''submitStats'' (PDict [])) (\<lambda>submit.
     and_then (py_get submit ''acSubmissionNum'' (PList [])) (\<lambda>submit_stats.
     and_then (py_get user ''username'' (PStr ''N/A'')) (\<lambda>name.
     and_then (py_get user ''profile'' (PDict [])) (\<lambda>profile.
     and_then (py_get profile ''ranking'' (PStr ''N/A'')) (\<lambda>rank.
     and_then (py_iter submit_stats) (\<lambda>items.
     and_then
       (assign_counts items
          \<lparr>username = name, ranking = rank,
           total_solved = PInt 0, easy_solved = PInt 0,
           medium_solved = PInt 0, hard_solved = PInt 0,
           contest_rating = PStr ''N/A'', contests_attended = PStr ''N/A'',
           top_percentage = PStr ''N/A''\<rparr>) (\<lambda>stats.
       contest_fields rt contest stats)))))))))"

section \<open>The renderer\<close>

definition newline :: string where
  "newline = [CHR 0x0A]"

text \<open>
  The three bars are computed first, then the f-string is filled from left to right:
  each field is converted to text in the order in which the template names it (the user
  name comes first, in three places, with the same text each time), and the only field
  with a format of its own is the ranking (\<^verbatim>\<open>:,\<close>). \<open>now\<close> is the time stamp that
  \<^verbatim>\<open>datetime.now\<close> and \<^verbatim>\<open>strftime\<close> produce. The literal text is given byte for
  byte as the source file holds it.
\<close>

definition generate_readme_content :: "pyruntime \<Rightarrow> string \<Rightarrow> StatsRecord \<Rightarrow> pyerr + string" where
  "generate_readme_content rt now stats =
     and_then (create_progress_bar rt (easy_solved stats) 830 20) (\<lambda>easy_bar.
     and_then (create_progress_bar rt (medium_solved stats) 1750 20) (\<lambda>medium_bar.
     and_then (create_progress_bar rt (hard_solved stats) 750 20) (\<lambda>hard_bar.
     and_then (py_str rt (username stats)) (\<lambda>name_text.
     and_then (py_format_comma rt (ranking stats)) (\<lambda>ranking_text.
     and_then (py_str rt (total_solved stats)) (\<lambda>total_text.
     and_then (py_str rt (easy_solved stats)) (\<lambda>easy_text.
     and_then (py_str rt (medium_solved stats)) (\<lambda>medium_text.
     and_then (py_str rt (hard_solved stats)) (\<lambda>hard_text.
     and_then (py_str rt (contest_rating stats)) (\<lambda>rating_text.
     and_then (py_str rt (contests_attended stats)) (\<lambda>attended_text.
     and_then (py_str rt (top_percentage stats)) (\<lambda>top_text.
       Inr (concat
            [''# '' @ [CHR 0xC4, CHR 0x9F, CHR 0xC5, CHR 0xB8, CHR 0xE2, CHR 0x80, CHR 0x9C, CHR 0xC5, CHR 0xA0] @ '' LeetCode Stats Tracker'' @ newline,
             newline,
             ''![LeetCode Stats](https://img.shields.io/badge/LeetCode-'' @ name_text @ ''-orange?style=for-the-badge&logo=leetcode)'' @ newline,
             newline,
             ''## '' @ [CHR 0xC4, CHR 0x9F, CHR 0xC5, CHR 0xB8, CHR 0xE2, CHR 0x80, CHR 0xA0] @ '' Profile Statistics'' @ newline,
             newline,
             ''| Metric | Value |'' @ newline,
             ''|--------|-------|'' @ newline,
             ''| '' @ [CHR 0xC4, CHR 0x9F, CHR 0xC5, CHR 0xB8, CHR 0xE2, CHR 0x80, CHR 0x98, CHR 0xC2, CHR 0xA4] @ '' **Username** | ['' @ name_text @ ''](https://leetcode.com/'' @ name_text @ ''/) |'' @ newline,
             ''| '' @ [CHR 0xC4, CHR 0x9F, CHR 0xC5, CHR 0xB8, CHR 0xE2, CHR 0x80, CHR 0xA6] @ '' **Ranking** | #'' @ ranking_text @ '' |'' @ newline,
             ''| '' @ [CHR 0xC3, CHR 0xA2, CHR 0xC5, CHR 0x93, CHR 0xE2, CHR 0x80, CHR 0xA6] @ '' **Total Solved** | **'' @ total_text @ ''** |'' @ newline,
             newline,
             ''## '' @ [CHR 0xC4, CHR 0x9F, CHR 0xC5, CHR 0xB8, CHR 0xE2, CHR 0x80, CHR 0x9C, CHR 0xCB, CHR 0x86] @ '' Problem Solving Progress'' @ newline,
             newline,
             ''| Difficulty | Solved | Progress |'' @ newline,
             ''|------------|--------|----------|'' @ newline,
             ''| '' @ [CHR 0xC4, CHR 0x9F, CHR 0xC5, CHR 0xB8, CHR 0xC5, CHR 0xB8, CHR 0xC2, CHR 0xA2] @ '' Easy | '' @ easy_text @ '' | '' @ easy_bar @ '' |'' @ newline,
             ''| '' @ [CHR 0xC4, CHR 0x9F, CHR 0xC5, CHR 0xB8, CHR 0xC5, CHR 0xB8, CHR 0xC2, CHR 0xA1] @ '' Medium | '' @ medium_text @ '' | '' @ medium_bar @ '' |'' @ newline,
             ''| '' @ [CHR 0xC4, CHR 0x9F, CHR 0xC5, CHR 0xB8, CHR 0xE2, CHR 0x80, CHR 0x9D, CHR 0xC2, CHR 0xB4] @ '' Hard | '' @ hard_text @ '' | '' @ hard_bar @ '' |'' @ newline,
             newline,
             ''## '' @ [CHR 0xC4, CHR 0x9F, CHR 0xC5, CHR 0xB8, CHR 0xC2, CHR 0xAF] @ '' Contest Statistics'' @ newline,
             newline,
             ''| Metric | Value |'' @ newline,
             ''|--------|-------|'' @ newline,
             ''| '' @ [CHR 0xC4, CHR 0x9F, CHR 0xC5, CHR 0xB8, CHR 0xE2, CHR 0x80, CHR 0x9C, CHR 0xC5, CHR 0xA0] @ '' **Contest Rating** | '' @ rating_text @ '' |'' @ newline,
             ''| '' @ [CHR 0xC4, CHR 0x9F, CHR 0xC5, CHR 0xB8, CHR 0xC2, CHR 0xAA] @ '' **Contests Attended** | '' @ attended_text @ '' |'' @ newline,
             ''| '' @ [CHR 0xC4, CHR 0x9F, CHR 0xC5, CHR 0xB8, CHR 0xE2, CHR 0x80, CHR 0x9C] @ '' **Top Percentage** | '' @ top_text @ '' |'' @ newline,
             newline,
             ''---'' @ newline,
             newline,
             ''<p align='' @ [CHR 0x22] @ ''center'' @ [CHR 0x22] @ ''>'' @ newline,
             ''  <i>'' @ [CHR 0xC4, CHR 0x9F, CHR 0xC5, CHR 0xB8, CHR 0xC2, CHR 0xA4, CHR 0xE2, CHR 0x80, CHR 0x93] @ '' This README is automatically updated daily via GitHub Actions</i><br>'' @ newline,
             ''  <sub>Last updated: '' @ now @ ''</sub>'' @ newline,
             ''</p>'' @ newline,
             newline,
             ''<!-- LEETCODE_STATS_START -->'' @ newline,
             ''<!-- Auto-generated content - Do not edit manually -->'' @ newline,
             ''<!-- LEETCODE_STATS_END -->'' @ newline])))))))))))))"

section \<open>The fetcher\<close>

record http_request =
  url :: string
  json_query :: string
  json_variables :: "(string \<times> string) list"
  headers :: "(string \<times> string) list"
  timeout :: nat

text \<open>
  A response: its status and what \<^verbatim>\<open>response.json()\<close> gives (it can raise). The
  status is the three-digit code of the status line (the HTTP library refuses any other),
  kept as a 16-bit number.
\<close>

record http_response =
  status_code :: "16 word"
  json_body :: "pyerr + pyval"

text \<open>
  What lies outside the program: the interpreter, the network (the outcome of a call of
  \<^verbatim>\<open>requests.post\<close>: a response or an exception), the clock, what happens when a
  file is opened for writing and written, and which lines the standard output can
  encode (\<^verbatim>\<open>print\<close> raises UnicodeEncodeError on the others).
\<close>

datatype write_outcome = OpenFails pyerr | WriteFails pyerr string | Written

record outside =
  runtime :: pyruntime
  http_post :: "http_request \<Rightarrow> pyerr + http_response"
  utc_now :: string
  file_write :: "string \<Rightarrow> string \<Rightarrow> write_outcome"
  stdout_encodes :: "string \<Rightarrow> bool"

text \<open>
  The state the program changes. \<open>post_calls\<close> holds the calls of \<^verbatim>\<open>requests.post\<close>
  made so far, each with its arguments; what the library puts on the wire for a call is
  not the program's.
\<close>

record world =
  environ :: "string \<rightharpoonup> string"
  stdout :: "string list"
  post_calls :: "http_request list"
  files :: "string \<rightharpoonup> string"
  opened_for_write :: "string list"

definition graphql_query :: string where
  "graphql_query = concat
     [newline,
      ''    query getUserProfile($username: String!) {'',
      newline,
      ''        matchedUser(username: $username) {'',
      newline,
      ''            username'',
      newline,
      ''            submitStats: submitStatsGlobal {'',
      newline,
      ''                acSubmissionNum {'',
      newline,
      ''                    difficulty'',
      newline,
      ''                    count'',
      newline,
      ''                    submissions'',
      newline,
      ''                }'',
      newline,
      ''            }'',
      newline,
      ''            profile {'',
      newline,
      ''                ranking'',
      newline,
      ''                reputation'',
      newline,
      ''                starRating'',
      newline,
      ''            }'',
      newline,
      ''        }'',
      newline,
      ''        userContestRanking(username: $username) {'',
      newline,
      ''            attendedContestsCount'',
      newline,
      ''            rating'',
      newline,
      ''            globalRanking'',
      newline,
      ''            topPercentage'',
      newline,
      ''        }'',
      newline,
      ''    }'',
      newline,
      ''    '']"

definition leetcode_request :: "string \<Rightarrow> http_request" where
  "leetcode_request uname =
     \<lparr>url = ''https://leetcode.com/graphql'',
      json_query = graphql_query,
      json_variables = [(''username'', uname)],
      headers = [(''Content-Type'', ''application/json''),
                 (''Referer'', ''https://leetcode.com/'' @ uname @ ''/'')],
      timeout = 10\<rparr>"

fun is_substring :: "string \<Rightarrow> string \<Rightarrow> bool" where
  "is_substring k [] = (k = [])"
| "is_substring k (c # cs) = (take (length k) (c # cs) = k \<or> is_substring k cs)"

text \<open>\<^verbatim>\<open>key in v\<close> for a string key.\<close>

fun py_contains :: "pyval \<Rightarrow> string \<Rightarrow> pyerr + bool" where
  "py_contains (PDict kvs) k = Inr (k \<in> set (map fst kvs))"
| "py_contains (PList xs) k = Inr (PStr k \<in> set xs)"
| "py_contains (PStr s) k = Inr (is_substring k s)"
| "py_contains v k = Inl TypeError"

text \<open>\<^verbatim>\<open>v[key]\<close> for a string key.\<close>

fun py_getitem :: "pyval \<Rightarrow> string \<Rightarrow> pyerr + pyval" where
  "py_getitem (PDict kvs) k = (case map_of kvs k of None \<Rightarrow> Inl KeyError | Some v \<Rightarrow> Inr v)"
| "py_getitem v k = Inl TypeError"

definition fetch_leetcode_stats :: "outside \<Rightarrow> string \<Rightarrow> world \<Rightarrow> (pyerr + pyval) \<times> world" where
  "fetch_leetcode_stats env uname w =
     (let w' = w\<lparr>post_calls := post_calls w @ [leetcode_request uname]\<rparr>
      in (and_then (http_post env (leetcode_request uname)) (\<lambda>response.
            if status_code response \<noteq> 200
            then and_then (int_text (runtime env) (uint (status_code response))) (\<lambda>code.
                   Inl (Exception (''Failed to fetch data: '' @ code)))
            else
              and_then (json_body response) (\<lambda>data.
              and_then (py_contains data ''errors'') (\<lambda>has_errors.
                if has_errors
                then and_then (py_getitem data ''errors'') (\<lambda>errors.
                     and_then (py_str (runtime env) errors) (\<lambda>payload.
                       Inl (Exception (''GraphQL Error: '' @ payload))))
                else py_getitem data ''data''))),
          w'))"

section \<open>The writer and the orchestrator\<close>

text \<open>\<^verbatim>\<open>print(s)\<close>: the line is encoded for the standard output, or nothing is written.\<close>

definition print_line :: "outside \<Rightarrow> string \<Rightarrow> world \<Rightarrow> (pyerr + unit) \<times> world" where
  "print_line env s w =
     (if stdout_encodes env s then (Inr (), w\<lparr>stdout := stdout w @ [s]\<rparr>)
      else (Inl UnicodeEncodeError, w))"











section \<open>Notions of the specification\<close>

text \<open>
  The bar as the specification describes it: \<open>filled\<close> filled glyphs, then the empty
  glyphs that complete \<open>len\<close>, between backticks, and the percentage label.
\<close>

definition glyph_run :: "string \<Rightarrow> int \<Rightarrow> string" where
  "glyph_run g n = concat (replicate (nat n) g)"

definition render_bar :: "int \<Rightarrow> int \<Rightarrow> string \<Rightarrow> string" where
  "render_bar len filled label =
     ''`'' @ glyph_run filled_glyph filled @ glyph_run empty_glyph (len - filled)
     @ ''` '' @ label @ ''%''"

text \<open>
  \<open>percentage = min(solved/total, 1.0)\<close> or \<open>0\<close> if \<open>total \<le> 0\<close>,
  \<open>filled = floor(length * percentage)\<close>, and the label with one decimal place; the
  quotient and the products are binary64 operations, as the \<open>1.0\<close> says.
\<close>

definition spec_percentage :: "int \<Rightarrow> int \<Rightarrow> rat" where
  "spec_percentage solved tot =
     (if tot \<le> 0 then 0 else min (fl (of_int solved / of_int tot)) 1)"

definition spec_filled :: "int \<Rightarrow> int \<Rightarrow> int \<Rightarrow> int" where
  "spec_filled solved tot len = \<lfloor>fl (of_int len * spec_percentage solved tot)\<rfloor>"

definition spec_label :: "int \<Rightarrow> int \<Rightarrow> string" where
  "spec_label solved tot = float_format_f1 (Finite False (fl (spec_percentage solved tot * 100)))"


text \<open>
  The difficulty breakdown of a data object (the entries the extractor's loop visits),
  the tag and the count of an entry, and the count that the last entry with a given tag
  carries, \<open>0\<close> when there is none.
\<close>

definition breakdown :: "pyval \<Rightarrow> pyval list" where
  "breakdown data =
     (case and_then (py_get data ''matchedUser'' (PDict [])) (\<lambda>user.
           and_then (py_get user ''submitStats'' (PDict [])) (\<lambda>submit.
           and_then (py_get submit ''acSubmissionNum'' (PList [])) py_iter)) of
        Inl e \<Rightarrow> []
      | Inr items \<Rightarrow> items)"

definition entry_field :: "string \<Rightarrow> pyval \<Rightarrow> pyval \<Rightarrow> pyval" where
  "entry_field k d item = (case py_get item k d of Inl e \<Rightarrow> d | Inr v \<Rightarrow> v)"

definition count_after :: "string \<Rightarrow> pyval list \<Rightarrow> pyval \<Rightarrow> pyval" where
  "count_after tag items before =
     (case filter (\<lambda>item. entry_field ''difficulty'' (PStr []) item = PStr tag) items of
        [] \<Rightarrow> before
      | x # xs \<Rightarrow> entry_field ''count'' (PInt 0) (last (x # xs)))"

definition tag_count :: "string \<Rightarrow> pyval list \<Rightarrow> pyval" where
  "tag_count tag items = count_after tag items (PInt 0)"

text \<open>
  The contest sub-object of a data object and its raw \<open>topPercentage\<close> when it has one.
  A number of hundredths \<open>k\<close> is nearest to \<open>x\<close> when \<open>k / 100\<close> is a decimal with two
  places that no other such decimal beats: \<open>x\<close> rounded to two decimal places.
\<close>

definition contest_of :: "pyval \<Rightarrow> pyval" where
  "contest_of data = entry_field ''userContestRanking'' (PDict []) data"

definition raw_top_percentage :: "pyval \<Rightarrow> pyval option" where
  "raw_top_percentage data =
     (case contest_of data of PDict kvs \<Rightarrow> map_of kvs ''topPercentage'' | _ \<Rightarrow> None)"

definition nearest_hundredths :: "rat \<Rightarrow> int \<Rightarrow> bool" where
  "nearest_hundredths x k = (\<bar>x * 100 - of_int k\<bar> \<le> 1 / 2)"


text \<open>
  Concrete surroundings for evaluating the program: an interpreter that prints a float
  as the exact fraction it stands for and a fixed mark for a container or a built-in
  exception, with the digit limit 4300 of Python 3.11 and room for \<open>2 ^ 32\<close> glyphs; a
  network that gives the same answer to every call; a file system on which writing
  works; a standard output that encodes every line, and one that encodes ASCII only;
  and a world in which nothing has happened yet.
\<close>

fun exact_fraction :: "pyfloat \<Rightarrow> string" where
  "exact_fraction (Finite s m) =
     (if s then ''-'' else []) @ int_str (fst (quotient_of m)) @ ''/'' @ int_str (snd (quotient_of m))"
| "exact_fraction (Infinity s) = (if s then ''-inf'' else ''inf'')"
| "exact_fraction NaN = ''nan''"

definition plain_runtime :: pyruntime where
  "plain_runtime =
     \<lparr>float_repr = exact_fraction, float_format_comma = exact_fraction,
      container_repr = (\<lambda>v. Inr ''<container>''), builtin_message = (\<lambda>e. ''<error>''),
      max_repeat = 2 ^ 32, int_max_str_digits = 4300\<rparr>"

definition answering :: "pyerr + http_response \<Rightarrow> outside" where
  "answering r =
     \<lparr>runtime = plain_runtime, http_post = (\<lambda>req. r),
      utc_now = ''2024-01-01 00:00:00 UTC'', file_write = (\<lambda>path content. Written),
      stdout_encodes = (\<lambda>line. True)\<rparr>"


definition fresh_world :: "string option \<Rightarrow> world" where
  "fresh_world uname =
     \<lparr>environ = (\<lambda>k. if k = ''LEETCODE_USERNAME'' then uname else None),
      stdout = [], post_calls = [], files = Map.empty, opened_for_write = []\<rparr>"

section \<open>Rounding to binary64\<close>

lemma rhe_of_int: "round_half_even (of_int n) = n"
  by (simp add: round_half_even_def)

lemma rhe_lower: "of_int (round_half_even r) \<ge> r - 1 / 2"
  unfolding round_half_even_def Let_def by (auto; linarith)

lemma rhe_upper: "of_int (round_half_even r) \<le> r + 1 / 2"
  unfolding round_half_even_def Let_def by (auto; linarith)

lemma rhe_ge_floor: "\<lfloor>r\<rfloor> \<le> round_half_even r"
  unfolding round_half_even_def Let_def by auto

lemma rhe_le_floor1: "round_half_even r \<le> \<lfloor>r\<rfloor> + 1"
  unfolding round_half_even_def Let_def by auto

lemma rhe_mono: "r \<le> s \<Longrightarrow> round_half_even r \<le> round_half_even s"
proof -
  assume rs: "r \<le> s"
  then have "\<lfloor>r\<rfloor> \<le> \<lfloor>s\<rfloor>" by (rule floor_mono)
  then consider "\<lfloor>r\<rfloor> = \<lfloor>s\<rfloor>" | "\<lfloor>r\<rfloor> + 1 \<le> \<lfloor>s\<rfloor>" by linarith
  then show ?thesis
  proof cases
    case 1
    with rs show ?thesis unfolding round_half_even_def Let_def by auto
  next
    case 2
    then show ?thesis using rhe_le_floor1 [of r] rhe_ge_floor [of s] by linarith
  qed
qed

lemma bitlen_powi:
  assumes "0 < p"
  shows "(2::rat) powi (bitlen p - 1) \<le> of_int p" and "of_int p < (2::rat) powi (bitlen p)"
proof -
  have b: "1 \<le> bitlen p"
    using assms bitlen_eq_zero_iff [of p] bitlen_nonneg [of p] by linarith
  from bitlen_bounds [OF assms]
  have 1: "2 ^ nat (bitlen p - 1) \<le> p" and 2: "p < 2 ^ nat (bitlen p)" by auto
  have "(2::rat) powi (bitlen p - 1) = of_int (2 ^ nat (bitlen p - 1))"
    using b by (simp add: power_int_def)
  also have "\<dots> \<le> of_int p" using 1 by (simp only: of_int_le_iff)
  finally show "(2::rat) powi (bitlen p - 1) \<le> of_int p" .
  have "(2::rat) powi (bitlen p) = of_int (2 ^ nat (bitlen p))"
    using b by (simp add: power_int_def)
  moreover have "of_int p < (of_int (2 ^ nat (bitlen p)) :: rat)" using 2 by (simp only: of_int_less_iff)
  ultimately show "of_int p < (2::rat) powi (bitlen p)" by simp
qed

lemma expo_bounds:
  assumes "0 < x"
  shows "2 powi expo x \<le> x" and "x < 2 powi (expo x + 1)"
proof -
  obtain p q where pq: "quotient_of x = (p, q)" by (cases "quotient_of x")
  have q: "0 < q" using pq by (rule quotient_of_denom_pos)
  have x: "x = of_int p / of_int q" using pq by (rule quotient_of_div)
  have p: "0 < p" using assms q x by (simp add: zero_less_divide_iff)
  define d where "d = bitlen p - bitlen q"
  have e: "expo x = (if 2 powi d \<le> x then d else d - 1)"
    by (simp add: expo_def pq d_def Let_def)
  note P = bitlen_powi [OF p] and Q = bitlen_powi [OF q]
  have qpos: "(0::rat) < of_int q" using q by simp
  have "x < 2 powi (bitlen p) / 2 powi (bitlen q - 1)"
    unfolding x using P(2) Q(1) qpos p
    by (intro frac_less) auto
  also have "\<dots> = 2 powi (d + 1)"
    by (simp add: d_def power_int_diff [symmetric] algebra_simps)
  finally have up: "x < 2 powi (d + 1)" .
  have "2 powi (bitlen p - 1) / 2 powi (bitlen q) \<le> x"
    unfolding x using P(1) Q(2) qpos p
    by (intro frac_le) auto
  moreover have "(2::rat) powi (bitlen p - 1) / 2 powi (bitlen q) = 2 powi (d - 1)"
    by (simp add: d_def power_int_diff [symmetric] algebra_simps)
  ultimately have lo: "2 powi (d - 1) \<le> x" by simp
  show "2 powi expo x \<le> x" using e lo by auto
  show "x < 2 powi (expo x + 1)" using e up by (auto simp: not_le)
qed

lemma powi2_less_imp: "(2::rat) powi m < 2 powi n \<Longrightarrow> m < n"
  using power_int_increasing [of n m "2::rat"] by (cases "m < n") auto

lemma powi2_pos: "(0::rat) < 2 powi k"
  by (simp add: zero_less_power_int)

lemma powi2_split: "(2::rat) powi (a + b) = 2 powi a * 2 powi b"
  by (rule power_int_add) simp

lemma quantum_pos: "0 < quantum x"
  by (simp add: quantum_def powi2_pos)

lemma quantum_53: "quantum x * 2 ^ 53 = 2 powi (max (expo x) (- 1022) + 1)"
proof -
  have "max (expo x) (- 1022) + 1 = (max (expo x) (- 1022) - 52) + 53" by simp
  then have "(2::rat) powi (max (expo x) (- 1022) + 1) = 2 powi (max (expo x) (- 1022) - 52) * 2 powi 53"
    by (simp only: powi2_split)
  then show ?thesis by (simp add: quantum_def)
qed

lemma quantum_52: "quantum x * 2 ^ 52 = 2 powi (max (expo x) (- 1022))"
proof -
  have "max (expo x) (- 1022) = (max (expo x) (- 1022) - 52) + 52" by simp
  then have "(2::rat) powi (max (expo x) (- 1022)) = 2 powi (max (expo x) (- 1022) - 52) * 2 powi 52"
    by (metis powi2_split)
  then show ?thesis by (simp add: quantum_def)
qed

lemma fl_zero: "fl 0 = 0"
  by (simp add: fl_def round_half_even_def)

lemma fl_nonneg: "0 \<le> x \<Longrightarrow> 0 \<le> fl x"
proof -
  assume "0 \<le> x"
  then have "0 \<le> x / quantum x" using quantum_pos [of x] by simp
  then have "0 \<le> \<lfloor>x / quantum x\<rfloor>" by simp
  then have "0 \<le> round_half_even (x / quantum x)" using rhe_ge_floor [of "x / quantum x"] by linarith
  then show ?thesis unfolding fl_def using quantum_pos [of x] by simp
qed

lemma fl_top:
  assumes "0 \<le> x"
  shows "fl x \<le> 2 powi (max (expo x) (- 1022) + 1)"
proof -
  have "x \<le> 2 powi (max (expo x) (- 1022) + 1)"
  proof (cases "x = 0")
    case True
    then show ?thesis using powi2_pos [of "max (expo x) (- 1022) + 1"] by simp
  next
    case False
    with assms have "0 < x" by simp
    then have "x < 2 powi (expo x + 1)" by (rule expo_bounds)
    also have "\<dots> \<le> 2 powi (max (expo x) (- 1022) + 1)"
      by (rule power_int_increasing) auto
    finally show ?thesis by simp
  qed
  then have "x \<le> quantum x * 2 ^ 53" by (simp only: quantum_53)
  then have "x / quantum x \<le> of_int (2 ^ 53)"
    using quantum_pos [of x] by (simp add: divide_le_eq mult.commute)
  then have "round_half_even (x / quantum x) \<le> 2 ^ 53"
    using rhe_mono [of "x / quantum x" "of_int (2 ^ 53)"] by (simp only: rhe_of_int)
  then have "(of_int (round_half_even (x / quantum x)) :: rat) \<le> of_int (2 ^ 53)"
    by (simp only: of_int_le_iff)
  then have "fl x \<le> quantum x * of_int (2 ^ 53)"
    unfolding fl_def using quantum_pos [of x] by (simp only: mult_le_cancel_left_pos)
  then show ?thesis using quantum_53 [of x] by simp
qed

lemma fl_bot:
  assumes "0 < x"
  shows "2 powi (max (expo x) (- 1022)) \<le> fl x \<or> expo x < - 1022"
proof (cases "expo x < - 1022")
  case True
  then show ?thesis by simp
next
  case False
  then have m: "max (expo x) (- 1022) = expo x" by simp
  have "2 powi (expo x) \<le> x" using assms by (rule expo_bounds)
  then have "quantum x * 2 ^ 52 \<le> x" using quantum_52 [of x] m by simp
  then have "of_int (2 ^ 52) \<le> x / quantum x"
    using quantum_pos [of x] by (simp add: le_divide_eq mult.commute)
  then have "2 ^ 52 \<le> round_half_even (x / quantum x)"
    using rhe_mono [of "of_int (2 ^ 52)" "x / quantum x"] by (simp only: rhe_of_int)
  then have "(of_int (2 ^ 52) :: rat) \<le> of_int (round_half_even (x / quantum x))"
    by (simp only: of_int_le_iff)
  then have "quantum x * of_int (2 ^ 52) \<le> fl x"
    unfolding fl_def using quantum_pos [of x] by (simp only: mult_le_cancel_left_pos)
  then show ?thesis using quantum_52 [of x] by simp
qed

lemma expo_mono:
  assumes "0 < x" "x \<le> y"
  shows "expo x \<le> expo y"
proof -
  have "2 powi expo x \<le> x" using assms(1) by (rule expo_bounds)
  also have "x \<le> y" by fact
  also have "y < 2 powi (expo y + 1)" using assms by (intro expo_bounds) simp
  finally have "expo x < expo y + 1" by (rule powi2_less_imp)
  then show ?thesis by simp
qed

lemma fl_mono:
  assumes "0 \<le> x" "x \<le> y"
  shows "fl x \<le> fl y"
proof (cases "x = 0")
  case True
  then show ?thesis using fl_nonneg [of y] assms by (simp add: fl_zero)
next
  case False
  with assms have x: "0 < x" and y: "0 < y" by auto
  have e: "expo x \<le> expo y" using x assms(2) by (rule expo_mono)
  show ?thesis
  proof (cases "max (expo x) (- 1022) = max (expo y) (- 1022)")
    case True
    then have q: "quantum x = quantum y" by (simp add: quantum_def)
    have "x / quantum y \<le> y / quantum y"
      using assms(2) quantum_pos [of y] by (simp add: divide_le_cancel)
    then have "round_half_even (x / quantum y) \<le> round_half_even (y / quantum y)"
      by (rule rhe_mono)
    then have "(of_int (round_half_even (x / quantum y)) :: rat) \<le> of_int (round_half_even (y / quantum y))"
      by (simp only: of_int_le_iff)
    then show ?thesis
      unfolding fl_def q using quantum_pos [of y] by (simp only: mult_le_cancel_left_pos)
  next
    case False
    with e have lt: "max (expo x) (- 1022) + 1 \<le> expo y" and big: "\<not> expo y < - 1022"
      and m: "max (expo y) (- 1022) = expo y" by auto
    have "fl x \<le> 2 powi (max (expo x) (- 1022) + 1)" using assms(1) by (rule fl_top)
    also have "\<dots> \<le> 2 powi (expo y)" using lt by (rule power_int_increasing) simp
    also have "\<dots> \<le> fl y" using fl_bot [OF y] big m by simp
    finally show ?thesis .
  qed
qed

lemma fl_exact:
  assumes "x / quantum x = of_int k"
  shows "fl x = x"
proof -
  have "fl x = quantum x * (x / quantum x)"
    unfolding fl_def by (simp only: assms rhe_of_int)
  then show ?thesis using quantum_pos [of x] by simp
qed

lemma fl_of_int:
  assumes "0 \<le> n" "n \<le> 2 ^ 53"
  shows "fl (of_int n) = of_int n"
proof (cases "n = 0")
  case True
  then show ?thesis by (simp add: fl_zero)
next
  case False
  with assms have pos: "(0::rat) < of_int n" and one: "(1::rat) \<le> of_int n" by auto
  define e where "e = expo (of_int n)"
  have lo: "2 powi e \<le> (of_int n :: rat)" and hi: "(of_int n :: rat) < 2 powi (e + 1)"
    unfolding e_def using pos by (rule expo_bounds)+
  have "(2::rat) powi 0 < 2 powi (e + 1)" using one hi by simp
  then have e0: "0 \<le> e" using powi2_less_imp [of 0 "e + 1"] by simp
  have "(of_int n :: rat) \<le> of_int (2 ^ 53)" using assms(2) by (simp only: of_int_le_iff)
  then have "(2::rat) powi e < 2 powi 54" using lo by simp
  then have e53: "e \<le> 53" using powi2_less_imp [of e 54] by simp
  have q: "quantum (of_int n) = 2 powi (e - 52)"
    using e0 by (simp add: quantum_def e_def [symmetric])
  show ?thesis
  proof (cases "e \<le> 52")
    case True
    have "(of_int n :: rat) / 2 powi (e - 52) = of_int n * 2 powi (52 - e)"
      by (simp add: power_int_diff field_simps)
    also have "(2::rat) powi (52 - e) = of_int (2 ^ nat (52 - e))"
      using True by (simp add: power_int_def)
    finally have "(of_int n :: rat) / quantum (of_int n) = of_int (n * 2 ^ nat (52 - e))"
      by (simp add: q)
    then show ?thesis by (rule fl_exact)
  next
    case False
    with e53 have e: "e = 53" by simp
    have "(2::rat) powi 53 \<le> of_int n" using lo e by simp
    then have "(of_int (2 ^ 53) :: rat) \<le> of_int n" by simp
    then have "2 ^ 53 \<le> n" by (simp only: of_int_le_iff)
    with assms have n: "n = 2 ^ 53" by simp
    have "quantum (of_int n) = 2" using q e by simp
    then have "(of_int n :: rat) / quantum (of_int n) = of_int (2 ^ 52)"
      using n by simp
    then show ?thesis by (rule fl_exact)
  qed
qed

lemma expo_zero: "expo 0 = - 2"
  by code_simp

lemma fl_below_limit:
  assumes "0 \<le> x" "x < 2 ^ 1024 - 2 ^ 970"
  shows "fl x < float_limit"
proof (cases "max (expo x) (- 1022) \<le> 1022")
  case True
  have "fl x \<le> 2 powi (max (expo x) (- 1022) + 1)" using assms(1) by (rule fl_top)
  also have "\<dots> \<le> 2 powi 1023" using True by (intro power_int_increasing) auto
  also have "\<dots> < float_limit" by (simp add: float_limit_def)
  finally show ?thesis .
next
  case False
  then have big: "1023 \<le> expo x" by simp
  have pos: "0 < x"
  proof (rule ccontr)
    assume "\<not> 0 < x"
    with assms have "x = 0" by simp
    with big show False by (simp add: expo_zero)
  qed
  have "2 powi expo x \<le> x" using pos by (rule expo_bounds)
  also have "x < 2 powi 1024" using assms(2) by simp
  finally have "expo x < 1024" by (rule powi2_less_imp)
  with big have e: "expo x = 1023" by simp
  have q: "quantum x = 2 ^ 971" by (simp add: quantum_def e)
  have "x / 2 ^ 971 < 2 ^ 53 - 1 / 2"
    using assms(2) by (simp add: divide_less_eq)
  then have "of_int (round_half_even (x / 2 ^ 971)) < (2 ^ 53 :: rat)"
    using rhe_upper [of "x / 2 ^ 971"] by linarith
  then have "2 ^ 971 * of_int (round_half_even (x / 2 ^ 971)) < (2 ^ 971 * 2 ^ 53 :: rat)"
    by (simp only: mult_less_cancel_left_pos zero_less_power zero_less_numeral)
  then show ?thesis by (simp add: fl_def q float_limit_def)
qed

section \<open>The progress bar on ints\<close>

lemma and_then_simps [simp]:
  "and_then (Inl e) f = Inl e" "and_then (Inr x) f = f x"
  by (simp_all add: and_then_def)

lemma float_of_int_small:
  assumes "0 \<le> n" "n \<le> 2 ^ 53"
  shows "float_of_int n = Inr (Finite False (of_int n))"
proof -
  have "(of_int n :: rat) \<le> of_int (2 ^ 53)" using assms(2) by (simp only: of_int_le_iff)
  then have "(of_int n :: rat) < float_limit" by (simp add: float_limit_def)
  then show ?thesis using assms by (simp add: float_of_int_def fl_of_int)
qed

lemma fl_le_int:
  assumes "0 \<le> x" "x \<le> of_int n" "n \<le> 2 ^ 53"
  shows "fl x \<le> of_int n"
proof -
  have n0: "0 \<le> n" using assms(1,2) by linarith
  have "fl x \<le> fl (of_int n)" using assms(1,2) by (rule fl_mono)
  then show ?thesis using fl_of_int [OF n0 assms(3)] by simp
qed

lemma float_mul_small:
  assumes "0 \<le> n" "n \<le> 2 ^ 53" "0 \<le> p" "p \<le> 1"
  shows "float_mul (Finite False (of_int n)) (Finite False p) = Finite False (fl (of_int n * p))"
proof -
  have a: "0 \<le> of_int n * p" using assms by simp
  have b: "of_int n * p \<le> of_int n" using assms by (simp add: mult_left_le)
  have "fl (of_int n * p) \<le> of_int n" using a b assms(2) by (rule fl_le_int)
  also have "(of_int n :: rat) \<le> of_int (2 ^ 53)" using assms(2) by (simp only: of_int_le_iff)
  also have "\<dots> < float_limit" by (simp add: float_limit_def)
  finally show ?thesis by simp
qed

lemma int_truediv_nonneg:
  assumes "0 \<le> a" "0 < b" "of_int a < (2 ^ 1024 - 2 ^ 970) * (of_int b :: rat)"
  shows "int_truediv a b = Inr (Finite False (fl (of_int a / of_int b)))"
proof -
  have "(of_int a :: rat) / of_int b < 2 ^ 1024 - 2 ^ 970"
    using assms(2,3) by (simp add: divide_less_eq)
  moreover have "(0::rat) \<le> of_int a / of_int b" using assms by simp
  ultimately have "fl (of_int a / of_int b) < float_limit" by (intro fl_below_limit)
  then show ?thesis using assms by (simp add: int_truediv_def)
qed

lemma float_min_one:
  "float_min (Finite False q) float_one = Finite False (min q 1)"
  by (simp add: float_min_def float_one_def signed_value_def min_def)

text \<open>Repeating a glyph.\<close>

lemma repeat_limit_bounds: "65536 \<le> repeat_limit rt" "repeat_limit rt < 2 ^ 48"
  by (simp_all add: repeat_limit_def)

lemma code_points_glyph: "code_points filled_glyph = 3" "code_points empty_glyph = 3"
  by (simp_all add: code_points_def filled_glyph_def empty_glyph_def)

lemma index_room:
  assumes "1 \<le> n" "n \<le> 2 ^ 60"
  shows "\<not> max_index div n < 3"
proof -
  have "3 * n \<le> max_index" using assms(2) by (simp add: max_index_def)
  then have "3 * n div n \<le> max_index div n" by (rule zdiv_mono1) (use assms(1) in simp)
  then show ?thesis using assms(1) by simp
qed

lemma repeat_limit_int:
  assumes "nat n \<le> repeat_limit rt"
  shows "n \<le> 2 ^ 48"
proof -
  have "nat n < 2 ^ 48" using assms repeat_limit_bounds(2) [of rt] by (rule le_less_trans)
  then show ?thesis by simp
qed

lemma str_repeat_glyph:
  assumes "0 \<le> n" "nat n \<le> repeat_limit rt" "g = filled_glyph \<or> g = empty_glyph"
  shows "str_repeat rt g n = Inr (glyph_run g n)"
proof (cases "n < 1")
  case True
  then have "n = 0" using assms(1) by simp
  then show ?thesis by (simp add: str_repeat_def glyph_run_def max_index_def)
next
  case False
  have "n \<le> 2 ^ 48" using assms(2) by (rule repeat_limit_int)
  then have n: "n \<le> 2 ^ 60" "n \<le> max_index" by (simp_all add: max_index_def)
  have r: "\<not> max_index div n < 3" using False n(1) by (intro index_room) simp_all
  have c: "code_points g = 3" using assms(3) code_points_glyph by auto
  have e: "g \<noteq> []" using assms(3) by (auto simp: filled_glyph_def empty_glyph_def)
  show ?thesis
    using False assms(1,2) n(2) r e
    by (simp add: str_repeat_def glyph_run_def c del: of_nat_numeral)
qed


declare nat_str.simps [simp del]

lemma digit_char_0: "digit_char 0 = CHR ''0''"
  by code_simp

lemma nat_str_0: "nat_str 0 = ''0''"
  by code_simp



text \<open>The function up to the two repetitions, and as a whole when they succeed.\<close>

lemma cpb_nonpos:
  assumes "tot \<le> 0" "0 \<le> len" "nat len \<le> repeat_limit rt"
  shows "create_progress_bar rt solved tot len = Inr (render_bar len 0 ''0.0'')"
proof -
  have "float_of_int 0 = Inr (Finite False 0)" using float_of_int_small [of 0] by simp
  moreover have "round_half_even 0 = 0" using rhe_of_int [of 0] by simp
  moreover have "str_repeat rt filled_glyph 0 = Inr (glyph_run filled_glyph 0)"
    by (rule str_repeat_glyph) simp_all
  moreover have "str_repeat rt empty_glyph len = Inr (glyph_run empty_glyph len)"
    using assms(2,3) by (rule str_repeat_glyph) simp
  ultimately show ?thesis
    using assms(1) by (simp add: create_progress_bar_def render_bar_def Let_def nat_str_0)
qed

lemma cpb_runs:
  assumes "0 \<le> solved" "0 < tot" "of_int solved < (2 ^ 1024 - 2 ^ 970) * (of_int tot :: rat)"
    and "float_of_int len = Inr (Finite False L)"
    and "fl (L * spec_percentage solved tot) < float_limit"
  shows "create_progress_bar rt (PInt solved) tot len =
           and_then (str_repeat rt filled_glyph \<lfloor>fl (L * spec_percentage solved tot)\<rfloor>) (\<lambda>filled_run.
           and_then (str_repeat rt empty_glyph (len - \<lfloor>fl (L * spec_percentage solved tot)\<rfloor>)) (\<lambda>empty_run.
             Inr (''`'' @ (filled_run @ empty_run) @ ''` '' @ spec_label solved tot @ ''%'')))"
proof -
  define p where "p = spec_percentage solved tot"
  have p: "p = min (fl (of_int solved / of_int tot)) 1"
    using assms(2) by (simp add: p_def spec_percentage_def)
  have p0: "0 \<le> p" unfolding p using assms(1,2) by (simp add: fl_nonneg)
  have p1: "p \<le> 1" unfolding p by simp
  have d: "int_truediv solved tot = Inr (Finite False (fl (of_int solved / of_int tot)))"
    using assms(1,2,3) by (rule int_truediv_nonneg)
  have h: "float_of_int 100 = Inr (Finite False 100)"
    using float_of_int_small [of 100] by simp
  have m1: "float_mul (Finite False L) (Finite False p) = Finite False (fl (L * p))"
    using assms(5) by (simp add: p_def)
  have m2: "float_mul (Finite False 100) (Finite False p) = Finite False (fl (p * 100))"
    using float_mul_small [of 100 p] p0 p1 by (simp add: mult.commute)
  show ?thesis
    using assms(2)
    by (simp add: create_progress_bar_def d float_min_one p [symmetric] assms(4) h m1 m2 Let_def
        spec_label_def p_def [symmetric] del: float_format_f1.simps float_mul.simps)
qed

lemma spec_percentage_range:
  assumes "0 \<le> solved"
  shows "0 \<le> spec_percentage solved tot" and "spec_percentage solved tot \<le> 1"
  using assms by (auto simp: spec_percentage_def fl_nonneg)




lemma spec_filled_range:
  assumes "0 \<le> solved" "0 \<le> len" "len \<le> 2 ^ 53"
  shows "0 \<le> spec_filled solved tot len" and "spec_filled solved tot len \<le> len"
proof -
  note r = spec_percentage_range [OF assms(1), of tot]
  have a: "0 \<le> of_int len * spec_percentage solved tot" using assms(2) r(1) by simp
  have b: "of_int len * spec_percentage solved tot \<le> of_int len"
    using assms(2) r by (simp add: mult_left_le)
  show "0 \<le> spec_filled solved tot len"
    unfolding spec_filled_def using fl_nonneg [OF a] by simp
  have "fl (of_int len * spec_percentage solved tot) \<le> of_int len"
    using a b assms(3) by (rule fl_le_int)
  then show "spec_filled solved tot len \<le> len"
    unfolding spec_filled_def by (simp add: floor_le_iff) 
qed




lemma cpb_pos:
  assumes "0 \<le> solved" "0 < tot" "of_int solved < (2 ^ 1024 - 2 ^ 970) * (of_int tot :: rat)"
    and "0 \<le> len" "nat len \<le> repeat_limit rt"
  shows "create_progress_bar rt (PInt solved) tot len =
           Inr (render_bar len (spec_filled solved tot len) (spec_label solved tot))"
proof -
  have "len \<le> 2 ^ 48" using assms(5) by (rule repeat_limit_int)
  then have l53: "len \<le> 2 ^ 53" by simp
  have l: "float_of_int len = Inr (Finite False (of_int len))"
    using assms(4) l53 by (rule float_of_int_small)
  note r = spec_percentage_range [OF assms(1), of tot]
  have a: "0 \<le> of_int len * spec_percentage solved tot" using assms(4) r(1) by simp
  have b: "of_int len * spec_percentage solved tot \<le> of_int len"
    using assms(4) r by (simp add: mult_left_le)
  have "fl (of_int len * spec_percentage solved tot) \<le> of_int len"
    using a b l53 by (rule fl_le_int)
  also have "(of_int len :: rat) \<le> of_int (2 ^ 53)" using l53 by (simp only: of_int_le_iff)
  also have "\<dots> < float_limit" by (simp add: float_limit_def)
  finally have f: "fl (of_int len * spec_percentage solved tot) < float_limit" .
  note s = spec_filled_range [OF assms(1,4) l53, of tot]
  have k: "nat (spec_filled solved tot len) \<le> repeat_limit rt"
    "nat (len - spec_filled solved tot len) \<le> repeat_limit rt"
    using s assms(5) by simp_all
  have e: "0 \<le> len - spec_filled solved tot len" using s(2) by simp
  have 1: "str_repeat rt filled_glyph (spec_filled solved tot len) =
        Inr (glyph_run filled_glyph (spec_filled solved tot len))"
    using s(1) k(1) by (rule str_repeat_glyph) simp
  have 2: "str_repeat rt empty_glyph (len - spec_filled solved tot len) =
        Inr (glyph_run empty_glyph (len - spec_filled solved tot len))"
    using e k(2) by (rule str_repeat_glyph) simp
  show ?thesis
    unfolding cpb_runs [OF assms(1,2,3) l f] spec_filled_def [symmetric]
    by (simp add: 1 2 render_bar_def)
qed























section \<open>Claims about the progress bar\<close>

lemma threshold_rat:
  assumes "solved < (2 ^ 1024 - 2 ^ 970) * (tot::int)"
  shows "of_int solved < (2 ^ 1024 - 2 ^ 970) * (of_int tot :: rat)"
proof -
  have "(of_int solved :: rat) < of_int ((2 ^ 1024 - 2 ^ 970) * tot)"
    using assms by (simp only: of_int_less_iff)
  then show ?thesis by simp
qed

lemma spec_nonpos:
  assumes "tot \<le> 0"
  shows "spec_filled solved tot len = 0" and "spec_label solved tot = ''0.0''"
proof -
  have p: "spec_percentage solved tot = 0" using assms by (simp add: spec_percentage_def)
  show "spec_filled solved tot len = 0" by (simp add: spec_filled_def p fl_zero)
  have "round_half_even 0 = 0" using rhe_of_int [of 0] by simp
  then show "spec_label solved tot = ''0.0''"
    by (simp add: spec_label_def p fl_zero nat_str_0)
qed

lemma cpb_spec:
  assumes "0 \<le> solved" "0 \<le> len" "nat len \<le> repeat_limit rt"
    and "tot \<le> 0 \<or> solved < (2 ^ 1024 - 2 ^ 970) * tot"
  shows "create_progress_bar rt (PInt solved) tot len =
           Inr (render_bar len (spec_filled solved tot len) (spec_label solved tot))"
proof (cases "tot \<le> 0")
  case True
  then show ?thesis using assms(2,3) by (simp add: cpb_nonpos spec_nonpos)
next
  case False
  then have t: "0 < tot" and b: "solved < (2 ^ 1024 - 2 ^ 970) * tot" using assms(4) by auto
  show ?thesis using assms(1) t threshold_rat [OF b] assms(2,3) by (rule cpb_pos)
qed

lemma small_bar: "20 \<le> repeat_limit rt"
  using repeat_limit_bounds(1) [of rt] by simp







text \<open>
  The rounding of the two float operations is visible in the bar: for 29 of 100 at
  length 100 the product \<open>100 * 0.29\<close> is the double just below 29, so 28 glyphs are
  filled.
\<close>

lemma progress_bar_rounding:
  "create_progress_bar rt (PInt 29) 100 100 = Inr (render_bar 100 28 ''29.0'')"
proof -
  have "spec_filled 29 100 100 = 28" by code_simp
  moreover have "spec_label 29 100 = ''29.0''" by code_simp
  moreover have "nat 100 \<le> repeat_limit rt" using repeat_limit_bounds(1) [of rt] by simp
  then have "create_progress_bar rt (PInt 29) 100 100 =
      Inr (render_bar 100 (spec_filled 29 100 100) (spec_label 29 100))"
    by (intro cpb_spec) simp_all
  ultimately show ?thesis by simp
qed

section \<open>The text of an int\<close>

lemma int_text_Inr: "int_text rt i = Inr text \<Longrightarrow> text = int_str i"
  by (simp add: int_text_def split: if_splits)

lemma nat_str_length: "0 < k \<Longrightarrow> n < 10 ^ k \<Longrightarrow> length (nat_str n) \<le> k"
proof (induction k arbitrary: n)
  case 0
  then show ?case by simp
next
  case (Suc k)
  show ?case
  proof (cases "n < 10")
    case True
    then show ?thesis by (subst nat_str.simps) simp
  next
    case False
    then have k: "0 < k" using Suc.prems(2) by (cases k) simp_all
    have "n div 10 < 10 ^ k" using Suc.prems(2) by (simp add: less_mult_imp_div_less mult.commute)
    with k have "length (nat_str (n div 10)) \<le> k" by (rule Suc.IH)
    then show ?thesis using False by (subst nat_str.simps) simp
  qed
qed

lemma int_text_million:
  assumes "\<bar>i\<bar> < 1000000"
  shows "int_text rt i = Inr (int_str i)"
proof -
  have "nat \<bar>i\<bar> < 10 ^ 6" using assms by (simp add: nat_less_iff)
  then have "length (nat_str (nat \<bar>i\<bar>)) \<le> 6" by (intro nat_str_length) simp_all
  moreover have "digit_limit rt = 0 \<or> 640 \<le> digit_limit rt" by (simp add: digit_limit_def)
  ultimately show ?thesis by (auto simp: int_text_def)
qed

section \<open>Claims about the extractor\<close>

lemma and_then_Inr_iff: "and_then m f = Inr y \<longleftrightarrow> (\<exists>x. m = Inr x \<and> f x = Inr y)"
  by (cases m) simp_all

lemma py_get_Inr:
  assumes "py_get v k d = Inr x"
  obtains kvs where "v = PDict kvs" "x = (case map_of kvs k of None \<Rightarrow> d | Some u \<Rightarrow> u)"
  using assms by (cases v) auto

lemma entry_field_get: "py_get v k d = Inr x \<Longrightarrow> entry_field k d v = x"
  by (simp add: entry_field_def)

lemma count_after_Nil: "count_after tag [] d = d"
  by (simp add: count_after_def)

lemma count_after_Cons:
  "count_after tag (x # xs) d =
     count_after tag xs
       (if entry_field ''difficulty'' (PStr []) x = PStr tag
        then entry_field ''count'' (PInt 0) x else d)"
  by (simp add: count_after_def split: list.splits)

lemma assign_counts_fields:
  assumes "assign_counts items s0 = Inr s1"
  shows "total_solved s1 = count_after ''All'' items (total_solved s0)
       \<and> easy_solved s1 = count_after ''Easy'' items (easy_solved s0)
       \<and> medium_solved s1 = count_after ''Medium'' items (medium_solved s0)
       \<and> hard_solved s1 = count_after ''Hard'' items (hard_solved s0)
       \<and> username s1 = username s0 \<and> ranking s1 = ranking s0
       \<and> contest_rating s1 = contest_rating s0
       \<and> contests_attended s1 = contests_attended s0
       \<and> top_percentage s1 = top_percentage s0"
  using assms
proof (induction items arbitrary: s0)
  case Nil
  then show ?case by (simp add: count_after_Nil)
next
  case (Cons item items)
  from Cons.prems obtain dv cv where
    d: "py_get item ''difficulty'' (PStr []) = Inr dv" and
    c: "py_get item ''count'' (PInt 0) = Inr cv" and
    r: "assign_counts items
          (if dv = PStr ''All'' then s0\<lparr>total_solved := cv\<rparr>
           else if dv = PStr ''Easy'' then s0\<lparr>easy_solved := cv\<rparr>
           else if dv = PStr ''Medium'' then s0\<lparr>medium_solved := cv\<rparr>
           else if dv = PStr ''Hard'' then s0\<lparr>hard_solved := cv\<rparr>
           else s0) = Inr s1"
    by (auto simp: and_then_Inr_iff)
  note e = entry_field_get [OF d] entry_field_get [OF c]
  show ?case
    using Cons.IH [OF r] by (simp add: count_after_Cons e)
qed

lemma and_then_InrE:
  assumes "and_then m f = Inr y"
  obtains x where "m = Inr x" "f x = Inr y"
  using assms by (auto simp: and_then_Inr_iff)

lemma parse_stats_Inr:
  assumes "parse_stats rt data = Inr st"
  obtains user contest submit submit_stats name profile rank items st1 where
    "py_get data ''matchedUser'' (PDict []) = Inr user"
    "py_get data ''userContestRanking'' (PDict []) = Inr contest"
    "py_get user ''submitStats'' (PDict []) = Inr submit"
    "py_get submit ''acSubmissionNum'' (PList []) = Inr submit_stats"
    "py_iter submit_stats = Inr items"
    "assign_counts items
       \<lparr>username = name, ranking = rank,
        total_solved = PInt 0, easy_solved = PInt 0,
        medium_solved = PInt 0, hard_solved = PInt 0,
        contest_rating = PStr ''N/A'', contests_attended = PStr ''N/A'',
        top_percentage = PStr ''N/A''\<rparr> = Inr st1"
    "contest_fields rt contest st1 = Inr st"
  using assms unfolding parse_stats_def by (elim and_then_InrE) blast

lemma contest_fields_falsy:
  assumes "contest_fields rt contest st1 = Inr st" "\<not> truthy contest"
  shows "st = st1"
  using assms by (simp add: contest_fields_def)

lemma contest_fields_truthy:
  assumes "contest_fields rt contest st1 = Inr st" "truthy contest"
  obtains rating rounded attended top_pct top_text where
    "py_get contest ''rating'' (PInt 0) = Inr rating"
    "py_round2 rating = Inr rounded"
    "py_get contest ''attendedContestsCount'' (PInt 0) = Inr attended"
    "py_get contest ''topPercentage'' PNone = Inr top_pct"
    "if truthy top_pct
     then \<exists>r text. py_round2 top_pct = Inr r \<and> py_str rt r = Inr text \<and> top_text = PStr (text @ ''%'')
     else top_text = PStr ''N/A''"
    "st = st1\<lparr>contest_rating := rounded, contests_attended := attended,
               top_percentage := top_text\<rparr>"
proof -
  from assms have "and_then (py_get contest ''rating'' (PInt 0)) (\<lambda>rating.
        and_then (py_round2 rating) (\<lambda>rounded.
        and_then (py_get contest ''attendedContestsCount'' (PInt 0)) (\<lambda>attended.
        and_then (py_get contest ''topPercentage'' PNone) (\<lambda>top_pct.
        and_then
          (if truthy top_pct
           then and_then (py_round2 top_pct) (\<lambda>r.
                and_then (py_str rt r) (\<lambda>text. Inr (PStr (text @ ''%''))))
           else Inr (PStr ''N/A'')) (\<lambda>top_text.
          Inr (st1\<lparr>contest_rating := rounded, contests_attended := attended,
                      top_percentage := top_text\<rparr>)))))) = Inr st"
    unfolding contest_fields_def by simp
  then show ?thesis
  proof (elim and_then_InrE)
    fix rating rounded attended top_pct top_text
    assume 1: "py_get contest ''rating'' (PInt 0) = Inr rating"
      and 2: "py_round2 rating = Inr rounded"
      and 3: "py_get contest ''attendedContestsCount'' (PInt 0) = Inr attended"
      and 4: "py_get contest ''topPercentage'' PNone = Inr top_pct"
      and 5: "(if truthy top_pct
               then and_then (py_round2 top_pct) (\<lambda>r.
                    and_then (py_str rt r) (\<lambda>text. Inr (PStr (text @ ''%''))))
               else Inr (PStr ''N/A'')) = Inr top_text"
      and 6: "Inr (st1\<lparr>contest_rating := rounded, contests_attended := attended,
                      top_percentage := top_text\<rparr>) = Inr st"
    from 5 have 7: "if truthy top_pct
        then \<exists>r text. py_round2 top_pct = Inr r \<and> py_str rt r = Inr text \<and> top_text = PStr (text @ ''%'')
        else top_text = PStr ''N/A''"
      by (auto simp: and_then_Inr_iff split: if_splits)
    from 6 have 8: "st = st1\<lparr>contest_rating := rounded, contests_attended := attended,
               top_percentage := top_text\<rparr>" by simp
    from 1 2 3 4 7 8 show ?thesis by (rule that)
  qed
qed

lemma contest_fields_counts:
  assumes "contest_fields rt contest st1 = Inr st"
  shows "total_solved st = total_solved st1 \<and> easy_solved st = easy_solved st1
       \<and> medium_solved st = medium_solved st1 \<and> hard_solved st = hard_solved st1"
proof (cases "truthy contest")
  case True
  with assms obtain rating rounded attended top_pct top_text where
    "st = st1\<lparr>contest_rating := rounded, contests_attended := attended,
               top_percentage := top_text\<rparr>"
    by (rule contest_fields_truthy)
  then show ?thesis by simp
next
  case False
  with assms have "st = st1" by (rule contest_fields_falsy)
  then show ?thesis by simp
qed

lemma breakdown_eq:
  assumes "py_get data ''matchedUser'' (PDict []) = Inr user"
    and "py_get user ''submitStats'' (PDict []) = Inr submit"
    and "py_get submit ''acSubmissionNum'' (PList []) = Inr submit_stats"
    and "py_iter submit_stats = Inr items"
  shows "breakdown data = items"
  by (simp add: breakdown_def assms)

text \<open>
  Claim C6, as amended. On every data object on which the extractor returns a record,
  each of the four counts is the count of the last entry of the difficulty breakdown whose
  tag is exactly \<open>All\<close>, \<open>Easy\<close>, \<open>Medium\<close> or \<open>Hard\<close>; entries with another tag
  play no part, and a count is \<open>0\<close> when no entry carries its tag. The extractor does
  not return on every data object: a breakdown entry that is not an object makes it
  raise AttributeError.
\<close>

theorem extractor_counts:
  assumes "parse_stats rt data = Inr st"
  shows "total_solved st = tag_count ''All'' (breakdown data)
       \<and> easy_solved st = tag_count ''Easy'' (breakdown data)
       \<and> medium_solved st = tag_count ''Medium'' (breakdown data)
       \<and> hard_solved st = tag_count ''Hard'' (breakdown data)"
proof -
  from assms obtain user contest submit submit_stats name profile rank items st1 where
    a: "py_get data ''matchedUser'' (PDict []) = Inr user"
       "py_get user ''submitStats'' (PDict []) = Inr submit"
       "py_get submit ''acSubmissionNum'' (PList []) = Inr submit_stats"
       "py_iter submit_stats = Inr items"
    and l: "assign_counts items
       \<lparr>username = name, ranking = rank,
        total_solved = PInt 0, easy_solved = PInt 0,
        medium_solved = PInt 0, hard_solved = PInt 0,
        contest_rating = PStr ''N/A'', contests_attended = PStr ''N/A'',
        top_percentage = PStr ''N/A''\<rparr> = Inr st1"
    and c: "contest_fields rt contest st1 = Inr st"
    by (rule parse_stats_Inr)
  have b: "breakdown data = items" using a by (rule breakdown_eq)
  show ?thesis
    using assign_counts_fields [OF l] contest_fields_counts [OF c]
    by (simp add: b tag_count_def)
qed

theorem extractor_counts_witness:
  "parse_stats plain_runtime
     (PDict [(''matchedUser'', PDict [(''submitStats'', PDict [(''acSubmissionNum'',
        PList [PDict [(''difficulty'', PStr ''All''), (''count'', PInt 1500)],
               PDict [(''difficulty'', PStr ''Easy''), (''count'', PInt 700)],
               PDict [(''difficulty'', PStr ''Medium''), (''count'', PInt 650)],
               PDict [(''difficulty'', PStr ''Hard''), (''count'', PInt 150)],
               PDict [(''difficulty'', PStr ''Other''), (''count'', PInt 7)]])])])])
   = Inr \<lparr>username = PStr ''N/A'', ranking = PStr ''N/A'',
          total_solved = PInt 1500, easy_solved = PInt 700,
          medium_solved = PInt 650, hard_solved = PInt 150,
          contest_rating = PStr ''N/A'', contests_attended = PStr ''N/A'',
          top_percentage = PStr ''N/A''\<rparr>
   \<and> map (\<lambda>tag. tag_count tag (breakdown
     (PDict [(''matchedUser'', PDict [(''submitStats'', PDict [(''acSubmissionNum'',
        PList [PDict [(''difficulty'', PStr ''All''), (''count'', PInt 1500)],
               PDict [(''difficulty'', PStr ''Easy''), (''count'', PInt 700)],
               PDict [(''difficulty'', PStr ''Medium''), (''count'', PInt 650)],
               PDict [(''difficulty'', PStr ''Hard''), (''count'', PInt 150)],
               PDict [(''difficulty'', PStr ''Other''), (''count'', PInt 7)]])])])])))
       [''All'', ''Easy'', ''Medium'', ''Hard'']
     = [PInt 1500, PInt 700, PInt 650, PInt 150]
   \<and> parse_stats plain_runtime
     (PDict [(''matchedUser'', PDict [(''submitStats'', PDict [(''acSubmissionNum'',
        PList [PDict [(''difficulty'', PStr ''All''), (''count'', PInt 1500)]])])])])
   = Inr \<lparr>username = PStr ''N/A'', ranking = PStr ''N/A'',
          total_solved = PInt 1500, easy_solved = PInt 0,
          medium_solved = PInt 0, hard_solved = PInt 0,
          contest_rating = PStr ''N/A'', contests_attended = PStr ''N/A'',
          top_percentage = PStr ''N/A''\<rparr>
   \<and> map (\<lambda>tag. tag_count tag (breakdown
     (PDict [(''matchedUser'', PDict [(''submitStats'', PDict [(''acSubmissionNum'',
        PList [PDict [(''difficulty'', PStr ''All''), (''count'', PInt 1500)]])])])])))
       [''All'', ''Easy'', ''Medium'', ''Hard'']
     = [PInt 1500, PInt 0, PInt 0, PInt 0]"
proof -
  let ?d = "PDict [(''matchedUser'', PDict [(''submitStats'', PDict [(''acSubmissionNum'',
        PList [PDict [(''difficulty'', PStr ''All''), (''count'', PInt 1500)],
               PDict [(''difficulty'', PStr ''Easy''), (''count'', PInt 700)],
               PDict [(''difficulty'', PStr ''Medium''), (''count'', PInt 650)],
               PDict [(''difficulty'', PStr ''Hard''), (''count'', PInt 150)],
               PDict [(''difficulty'', PStr ''Other''), (''count'', PInt 7)]])])])]"
  let ?s = "\<lparr>username = PStr ''N/A'', ranking = PStr ''N/A'',
          total_solved = PInt 1500, easy_solved = PInt 700,
          medium_solved = PInt 650, hard_solved = PInt 150,
          contest_rating = PStr ''N/A'', contests_attended = PStr ''N/A'',
          top_percentage = PStr ''N/A''\<rparr>"
  let ?e = "PDict [(''matchedUser'', PDict [(''submitStats'', PDict [(''acSubmissionNum'',
        PList [PDict [(''difficulty'', PStr ''All''), (''count'', PInt 1500)]])])])]"
  let ?t = "\<lparr>username = PStr ''N/A'', ranking = PStr ''N/A'',
          total_solved = PInt 1500, easy_solved = PInt 0,
          medium_solved = PInt 0, hard_solved = PInt 0,
          contest_rating = PStr ''N/A'', contests_attended = PStr ''N/A'',
          top_percentage = PStr ''N/A''\<rparr>"
  have d: "parse_stats plain_runtime ?d = Inr ?s"
    by (simp add: parse_stats_def contest_fields_def)
  have e: "parse_stats plain_runtime ?e = Inr ?t"
    by (simp add: parse_stats_def contest_fields_def)
  from extractor_counts [OF d]
  have "total_solved ?s = tag_count ''All'' (breakdown ?d)"
    "easy_solved ?s = tag_count ''Easy'' (breakdown ?d)"
    "medium_solved ?s = tag_count ''Medium'' (breakdown ?d)"
    "hard_solved ?s = tag_count ''Hard'' (breakdown ?d)" by blast+
  from this [symmetric]
  have 1: "map (\<lambda>tag. tag_count tag (breakdown ?d)) [''All'', ''Easy'', ''Medium'', ''Hard'']
      = [PInt 1500, PInt 700, PInt 650, PInt 150]" by simp
  from extractor_counts [OF e]
  have "total_solved ?t = tag_count ''All'' (breakdown ?e)"
    "easy_solved ?t = tag_count ''Easy'' (breakdown ?e)"
    "medium_solved ?t = tag_count ''Medium'' (breakdown ?e)"
    "hard_solved ?t = tag_count ''Hard'' (breakdown ?e)" by blast+
  from this [symmetric]
  have 2: "map (\<lambda>tag. tag_count tag (breakdown ?e)) [''All'', ''Easy'', ''Medium'', ''Hard'']
      = [PInt 1500, PInt 0, PInt 0, PInt 0]" by simp
  from d 1 e 2 show ?thesis by (intro conjI)
qed

theorem extractor_counts_counterexample:
  "parse_stats plain_runtime
     (PDict [(''matchedUser'', PDict [(''submitStats'', PDict [(''acSubmissionNum'',
        PList [PStr ''All''])])])])
   = Inl AttributeError"
  by (simp add: parse_stats_def)

lemma contest_of_eq:
  assumes "py_get data ''userContestRanking'' (PDict []) = Inr contest"
  shows "contest_of data = contest"
  using assms by (simp add: contest_of_def entry_field_def)

lemma init_contest_fields:
  assumes "assign_counts items
       \<lparr>username = name, ranking = rank,
        total_solved = PInt 0, easy_solved = PInt 0,
        medium_solved = PInt 0, hard_solved = PInt 0,
        contest_rating = PStr ''N/A'', contests_attended = PStr ''N/A'',
        top_percentage = PStr ''N/A''\<rparr> = Inr st1"
  shows "contest_rating st1 = PStr ''N/A''" "contests_attended st1 = PStr ''N/A''"
    "top_percentage st1 = PStr ''N/A''"
  using assign_counts_fields [OF assms] by simp_all

lemma nat_str_1: "nat_str 1 = ''1''"
  by code_simp

lemma py_round2_text:
  assumes "py_round2 v = Inr r" "py_str rt r = Inr text"
  shows "(\<forall>i. v = PInt i \<longrightarrow> text = int_str i)
       \<and> (\<forall>b. v = PBool b \<longrightarrow> text = (if b then ''1'' else ''0''))
       \<and> (\<forall>s m. v = PFloat (Finite s m) \<longrightarrow>
            (\<exists>k. nearest_hundredths m k \<and> text = float_repr rt (Finite s (fl (of_int k / 100)))))
       \<and> (\<forall>s. v = PFloat (Infinity s) \<longrightarrow> text = float_repr rt (Infinity s))
       \<and> (v = PFloat NaN \<longrightarrow> text = float_repr rt NaN)
       \<and> ((\<exists>i. v = PInt i) \<or> (\<exists>b. v = PBool b) \<or> (\<exists>x. v = PFloat x))"
proof (cases v)
  case (PInt i)
  with assms show ?thesis by (auto dest: int_text_Inr)
next
  case (PBool b)
  with assms have "text = int_str (if b then 1 else 0)" by (auto dest: int_text_Inr)
  then show ?thesis using PBool nat_str_0 nat_str_1 by (cases b) (auto simp: int_str_def)
next
  case (PFloat x)
  show ?thesis
  proof (cases x)
    case (Finite s m)
    define k where "k = round_half_even (m * 100)"
    have n: "nearest_hundredths m k"
      using rhe_lower [of "m * 100"] rhe_upper [of "m * 100"]
      unfolding nearest_hundredths_def k_def by linarith
    from assms PFloat Finite have "text = float_repr rt (Finite s (fl (of_int k / 100)))"
      by (auto simp: Let_def k_def split: if_splits)
    with n show ?thesis using PFloat Finite by auto
  next
    case (Infinity s)
    with assms PFloat show ?thesis by auto
  next
    case NaN
    with assms PFloat show ?thesis by auto
  qed
qed (use assms in simp_all)

text \<open>
  Claim C7, as amended. On every data object on which the extractor returns a record,
  \<open>top_percentage\<close> is \<open>N/A\<close> when the raw \<open>topPercentage\<close> is absent or falsy (zero in
  particular), and otherwise the text of \<^verbatim>\<open>round(raw, 2)\<close> followed by \<open>%\<close>. The
  raw value is then a number. A float is rounded to two decimal places: the text is that
  of the double nearest to \<open>k / 100\<close>, where \<open>k\<close> hundredths is nearest to the raw value,
  as the interpreter prints a float (it does not pad to two places). An int is printed as
  it is, without decimals, so that 15 gives \<open>15%\<close>; \<^verbatim>\<open>True\<close> gives \<open>1%\<close>; an
  infinity or a NaN is printed unchanged. The extractor does not return on every data
  object: a \<open>topPercentage\<close> that is a string makes it raise TypeError.
\<close>

theorem extractor_top_percentage:
  assumes "parse_stats rt data = Inr st"
  shows "(top_percentage st \<noteq> PStr ''N/A'' \<longleftrightarrow> (\<exists>v. raw_top_percentage data = Some v \<and> truthy v))
       \<and> (\<forall>s m. raw_top_percentage data = Some (PFloat (Finite s m)) \<and> m \<noteq> 0 \<longrightarrow>
            (\<exists>k. nearest_hundredths m k
               \<and> top_percentage st = PStr (float_repr rt (Finite s (fl (of_int k / 100))) @ ''%'')))
       \<and> (\<forall>i. raw_top_percentage data = Some (PInt i) \<and> i \<noteq> 0 \<longrightarrow>
            top_percentage st = PStr (int_str i @ ''%''))
       \<and> (raw_top_percentage data = Some (PBool True) \<longrightarrow> top_percentage st = PStr ''1%'')
       \<and> (\<forall>s. raw_top_percentage data = Some (PFloat (Infinity s)) \<longrightarrow>
            top_percentage st = PStr (float_repr rt (Infinity s) @ ''%''))
       \<and> (raw_top_percentage data = Some (PFloat NaN) \<longrightarrow>
            top_percentage st = PStr (float_repr rt NaN @ ''%''))
       \<and> (\<forall>v. raw_top_percentage data = Some v \<and> truthy v \<longrightarrow>
            (\<exists>i. v = PInt i) \<or> v = PBool True \<or> (\<exists>x. v = PFloat x))"
proof -
  from assms obtain user contest submit submit_stats name profile rank items st1 where
    g: "py_get data ''userContestRanking'' (PDict []) = Inr contest"
    and l: "assign_counts items
       \<lparr>username = name, ranking = rank,
        total_solved = PInt 0, easy_solved = PInt 0,
        medium_solved = PInt 0, hard_solved = PInt 0,
        contest_rating = PStr ''N/A'', contests_attended = PStr ''N/A'',
        top_percentage = PStr ''N/A''\<rparr> = Inr st1"
    and c: "contest_fields rt contest st1 = Inr st"
    by (rule parse_stats_Inr)
  note co = contest_of_eq [OF g]
  note i = init_contest_fields [OF l]
  have falsy: ?thesis if "top_percentage st = PStr ''N/A''"
    and "\<And>v. raw_top_percentage data = Some v \<Longrightarrow> \<not> truthy v"
  proof -
    have "\<not> (\<exists>v. raw_top_percentage data = Some v \<and> truthy v)" using that(2) by blast
    moreover have "\<And>s m. raw_top_percentage data = Some (PFloat (Finite s m)) \<Longrightarrow> m = 0"
      using that(2) by fastforce
    moreover have "\<And>i. raw_top_percentage data = Some (PInt i) \<Longrightarrow> i = 0"
      using that(2) by fastforce
    moreover have "raw_top_percentage data \<noteq> Some (PBool True)"
      using that(2) by fastforce
    moreover have "\<And>s. raw_top_percentage data \<noteq> Some (PFloat (Infinity s))"
      using that(2) by fastforce
    moreover have "raw_top_percentage data \<noteq> Some (PFloat NaN)"
      using that(2) by fastforce
    ultimately show ?thesis using that(1) by blast
  qed
  show ?thesis
  proof (cases "truthy contest")
    case False
    then have st: "st = st1" using c by (simp add: contest_fields_falsy)
    have "raw_top_percentage data = None"
      using False by (cases contest) (simp_all add: raw_top_percentage_def co)
    then show ?thesis by (intro falsy) (simp_all add: st i)
  next
    case True
    from c True obtain rating rounded attended top_pct top_text where
      t: "py_get contest ''topPercentage'' PNone = Inr top_pct"
      and x: "if truthy top_pct
        then \<exists>r text. py_round2 top_pct = Inr r \<and> py_str rt r = Inr text \<and> top_text = PStr (text @ ''%'')
        else top_text = PStr ''N/A''"
      and st: "st = st1\<lparr>contest_rating := rounded, contests_attended := attended,
               top_percentage := top_text\<rparr>"
      by (rule contest_fields_truthy)
    from t obtain kvs where k: "contest = PDict kvs"
      and tp: "top_pct = (case map_of kvs ''topPercentage'' of None \<Rightarrow> PNone | Some u \<Rightarrow> u)"
      by (rule py_get_Inr)
    have raw: "raw_top_percentage data = map_of kvs ''topPercentage''"
      by (simp add: raw_top_percentage_def co k)
    have top: "top_percentage st = top_text" by (simp add: st)
    show ?thesis
    proof (cases "truthy top_pct")
      case False
      with x have n: "top_text = PStr ''N/A''" by simp
      have "\<not> truthy v" if "raw_top_percentage data = Some v" for v
        using that False by (simp add: raw tp)
      with n show ?thesis by (intro falsy) (simp_all add: top)
    next
      case tr: True
      then obtain v where v: "map_of kvs ''topPercentage'' = Some v" and tv: "top_pct = v"
        by (cases "map_of kvs ''topPercentage''") (simp_all add: tp)
      from x tr obtain r shown where r: "py_round2 top_pct = Inr r"
        and s: "py_str rt r = Inr shown" and tt: "top_text = PStr (shown @ ''%'')" by auto
      note p = py_round2_text [OF r s]
      have "last (shown @ ''%'') \<noteq> last ''N/A''" by simp
      then have ne: "top_text \<noteq> PStr ''N/A''" unfolding tt by auto
      have rv: "raw_top_percentage data = Some top_pct" by (simp add: raw v tv)
      have 1: "top_percentage st \<noteq> PStr ''N/A'' \<longleftrightarrow> (\<exists>v. raw_top_percentage data = Some v \<and> truthy v)"
        using ne tr by (simp add: top rv)
      have 2: "\<exists>k. nearest_hundredths m k
               \<and> top_percentage st = PStr (float_repr rt (Finite s (fl (of_int k / 100))) @ ''%'')"
        if "raw_top_percentage data = Some (PFloat (Finite s m))" for s m
        using p that by (auto simp: rv top tt)
      have 3: "top_percentage st = PStr (int_str i @ ''%'')"
        if "raw_top_percentage data = Some (PInt i)" for i
        using p that by (auto simp: rv top tt)
      have 4: "top_percentage st = PStr ''1%''"
        if "raw_top_percentage data = Some (PBool True)"
        using p that by (auto simp: rv top tt)
      have 5: "top_percentage st = PStr (float_repr rt (Infinity s) @ ''%'')"
        if "raw_top_percentage data = Some (PFloat (Infinity s))" for s
        using p that by (auto simp: rv top tt)
      have 6: "top_percentage st = PStr (float_repr rt NaN @ ''%'')"
        if "raw_top_percentage data = Some (PFloat NaN)"
        using p that by (auto simp: rv top tt)
      have 7: "(\<exists>i. v = PInt i) \<or> v = PBool True \<or> (\<exists>x. v = PFloat x)"
        if "raw_top_percentage data = Some v" "truthy v" for v
        using p that by (auto simp: rv)
      from 1 2 3 4 5 6 7 show ?thesis by blast
    qed
  qed
qed

lemma round_15678: "round_half_even (fl (15678 / 1000) * 100) = 1568"
  by code_simp

lemma fl_15678_pos: "fl (15678 / 1000) \<noteq> 0"
  by code_simp

theorem extractor_top_percentage_witness:
  "parse_stats plain_runtime
     (PDict [(''userContestRanking'',
        PDict [(''topPercentage'', PFloat (Finite False (fl (15678 / 1000))))])])
     = Inr \<lparr>username = PStr ''N/A'', ranking = PStr ''N/A'',
          total_solved = PInt 0, easy_solved = PInt 0,
          medium_solved = PInt 0, hard_solved = PInt 0,
          contest_rating = PInt 0, contests_attended = PInt 0,
          top_percentage =
            PStr (float_repr plain_runtime (Finite False (fl (1568 / 100))) @ ''%'')\<rparr>
   \<and> nearest_hundredths (fl (15678 / 1000)) 1568
   \<and> (\<exists>k. nearest_hundredths (fl (15678 / 1000)) k
        \<and> float_repr plain_runtime (Finite False (fl (1568 / 100)))
            = float_repr plain_runtime (Finite False (fl (of_int k / 100))))
   \<and> parse_stats plain_runtime (PDict [(''userContestRanking'', PDict [(''topPercentage'', PInt 0)])])
     = Inr \<lparr>username = PStr ''N/A'', ranking = PStr ''N/A'',
          total_solved = PInt 0, easy_solved = PInt 0,
          medium_solved = PInt 0, hard_solved = PInt 0,
          contest_rating = PInt 0, contests_attended = PInt 0,
          top_percentage = PStr ''N/A''\<rparr>"
proof -
  let ?d = "PDict [(''userContestRanking'',
        PDict [(''topPercentage'', PFloat (Finite False (fl (15678 / 1000))))])]"
  let ?z = "PDict [(''userContestRanking'', PDict [(''topPercentage'', PInt 0)])]"
  have "(0::rat) \<le> 1568 / 100" "(1568 / 100 :: rat) < 2 ^ 1024 - 2 ^ 970" by simp_all
  then have b: "fl (1568 / 100) < float_limit" by (rule fl_below_limit)
  have e: "parse_stats plain_runtime ?d = Inr \<lparr>username = PStr ''N/A'', ranking = PStr ''N/A'',
          total_solved = PInt 0, easy_solved = PInt 0,
          medium_solved = PInt 0, hard_solved = PInt 0,
          contest_rating = PInt 0, contests_attended = PInt 0,
          top_percentage =
            PStr (float_repr plain_runtime (Finite False (fl (1568 / 100))) @ ''%'')\<rparr>"
    using b round_15678 fl_15678_pos by (simp add: parse_stats_def contest_fields_def)
  have z: "parse_stats plain_runtime ?z = Inr \<lparr>username = PStr ''N/A'', ranking = PStr ''N/A'',
          total_solved = PInt 0, easy_solved = PInt 0,
          medium_solved = PInt 0, hard_solved = PInt 0,
          contest_rating = PInt 0, contests_attended = PInt 0,
          top_percentage = PStr ''N/A''\<rparr>"
    by (simp add: parse_stats_def contest_fields_def)
  have r: "raw_top_percentage ?d = Some (PFloat (Finite False (fl (15678 / 1000))))"
    by (simp add: raw_top_percentage_def contest_of_def entry_field_def)
  have n: "nearest_hundredths (fl (15678 / 1000)) 1568"
    using rhe_lower [of "fl (15678 / 1000) * 100"] rhe_upper [of "fl (15678 / 1000) * 100"]
    unfolding nearest_hundredths_def round_15678 by linarith
  let ?top = "PStr (float_repr plain_runtime (Finite False (fl (1568 / 100))) @ ''%'')"
  from extractor_top_percentage [OF e]
  have "\<forall>s m. raw_top_percentage ?d = Some (PFloat (Finite s m)) \<and> m \<noteq> 0 \<longrightarrow>
            (\<exists>k. nearest_hundredths m k
               \<and> ?top = PStr (float_repr plain_runtime (Finite s (fl (of_int k / 100))) @ ''%''))"
    by simp
  with r fl_15678_pos
  have "\<exists>k. nearest_hundredths (fl (15678 / 1000)) k
         \<and> ?top = PStr (float_repr plain_runtime (Finite False (fl (of_int k / 100))) @ ''%'')"
    by blast
  then have "\<exists>k. nearest_hundredths (fl (15678 / 1000)) k
        \<and> float_repr plain_runtime (Finite False (fl (1568 / 100)))
            = float_repr plain_runtime (Finite False (fl (of_int k / 100)))"
    by simp
  with e n z show ?thesis by (intro conjI)
qed

theorem extractor_top_percentage_counterexample:
  "parse_stats plain_runtime (PDict [(''userContestRanking'', PDict [(''topPercentage'', PInt 15)])])
     = Inr \<lparr>username = PStr ''N/A'', ranking = PStr ''N/A'',
          total_solved = PInt 0, easy_solved = PInt 0,
          medium_solved = PInt 0, hard_solved = PInt 0,
          contest_rating = PInt 0, contests_attended = PInt 0,
          top_percentage = PStr ''15%''\<rparr>
   \<and> parse_stats plain_runtime
       (PDict [(''userContestRanking'', PDict [(''topPercentage'', PStr ''15.68'')])])
     = Inl TypeError"
proof -
  have n: "nat_str 15 = ''15''" by code_simp
  have "\<bar>15::int\<bar> < 1000000" by simp
  then have "int_text plain_runtime 15 = Inr (int_str 15)" by (rule int_text_million)
  then show ?thesis by (simp add: parse_stats_def contest_fields_def int_str_def n)
qed

lemma py_round2_number:
  assumes "py_round2 v = Inr r"
  shows "r \<noteq> PStr s"
  using assms by (cases v) (auto simp: and_then_Inr_iff)

text \<open>
  Claim C10, as amended. When the extractor returns a record: a non-empty contest object
  without a \<open>rating\<close> key gives \<open>contest_rating = 0\<close>, and one without an
  \<open>attendedContestsCount\<close> key gives \<open>contests_attended = 0\<close>; both fields are
  \<open>N/A\<close> whenever \<open>userContestRanking\<close> is falsy (absent, null, empty, false or
  zero); \<open>contest_rating\<close> is \<open>N/A\<close> only then, and \<open>contests_attended\<close> is
  \<open>N/A\<close> only then or when the upstream \<open>attendedContestsCount\<close> is itself the
  string \<open>N/A\<close>.
\<close>

theorem extractor_contest_defaults:
  assumes "parse_stats rt data = Inr st"
  shows "(\<forall>kvs. contest_of data = PDict kvs \<and> kvs \<noteq> [] \<and> map_of kvs ''rating'' = None
            \<longrightarrow> contest_rating st = PInt 0)
       \<and> (\<forall>kvs. contest_of data = PDict kvs \<and> kvs \<noteq> []
              \<and> map_of kvs ''attendedContestsCount'' = None
            \<longrightarrow> contests_attended st = PInt 0)
       \<and> (\<not> truthy (contest_of data)
            \<longrightarrow> contest_rating st = PStr ''N/A'' \<and> contests_attended st = PStr ''N/A'')
       \<and> (contest_rating st = PStr ''N/A'' \<longrightarrow> \<not> truthy (contest_of data))
       \<and> (contests_attended st = PStr ''N/A''
            \<longrightarrow> \<not> truthy (contest_of data)
                \<or> (\<exists>kvs. contest_of data = PDict kvs
                      \<and> map_of kvs ''attendedContestsCount'' = Some (PStr ''N/A'')))"
proof -
  from assms obtain user contest submit submit_stats name profile rank items st1 where
    g: "py_get data ''userContestRanking'' (PDict []) = Inr contest"
    and l: "assign_counts items
       \<lparr>username = name, ranking = rank,
        total_solved = PInt 0, easy_solved = PInt 0,
        medium_solved = PInt 0, hard_solved = PInt 0,
        contest_rating = PStr ''N/A'', contests_attended = PStr ''N/A'',
        top_percentage = PStr ''N/A''\<rparr> = Inr st1"
    and c: "contest_fields rt contest st1 = Inr st"
    by (rule parse_stats_Inr)
  note co = contest_of_eq [OF g]
  note i = init_contest_fields [OF l]
  show ?thesis
  proof (cases "truthy contest")
    case False
    then have st: "st = st1" using c by (rule contest_fields_falsy [rotated])
    from False have "\<And>kvs. contest = PDict kvs \<Longrightarrow> kvs = []" by auto
    then show ?thesis using False by (auto simp: st i co)
  next
    case True
    from c True obtain rating rounded attended top_pct top_text where
      r: "py_get contest ''rating'' (PInt 0) = Inr rating"
      and ro: "py_round2 rating = Inr rounded"
      and a: "py_get contest ''attendedContestsCount'' (PInt 0) = Inr attended"
      and st: "st = st1\<lparr>contest_rating := rounded, contests_attended := attended,
               top_percentage := top_text\<rparr>"
      by (rule contest_fields_truthy)
    from r obtain kvs where k: "contest = PDict kvs"
      and rv: "rating = (case map_of kvs ''rating'' of None \<Rightarrow> PInt 0 | Some u \<Rightarrow> u)"
      by (rule py_get_Inr)
    from a k have av: "attended = (case map_of kvs ''attendedContestsCount'' of None \<Rightarrow> PInt 0 | Some u \<Rightarrow> u)"
      by simp
    have cr: "contest_rating st = rounded" and ca: "contests_attended st = attended"
      by (simp_all add: st)
    have 1: "contest_rating st = PInt 0" if "map_of kvs ''rating'' = None"
      using ro that by (simp add: cr rv)
    have 2: "contests_attended st = PInt 0" if "map_of kvs ''attendedContestsCount'' = None"
      using that by (simp add: ca av)
    have 3: "contest_rating st \<noteq> PStr ''N/A''"
      unfolding cr using ro by (rule py_round2_number)
    have 4: "map_of kvs ''attendedContestsCount'' = Some (PStr ''N/A'')"
      if "contests_attended st = PStr ''N/A''"
      using that by (cases "map_of kvs ''attendedContestsCount''") (simp_all add: ca av)
    show ?thesis using True 1 2 3 4 by (auto simp: co k)
  qed
qed

theorem extractor_contest_defaults_witness:
  "parse_stats plain_runtime (PDict [(''userContestRanking'', PDict [(''globalRanking'', PInt 9)])])
     = Inr \<lparr>username = PStr ''N/A'', ranking = PStr ''N/A'',
          total_solved = PInt 0, easy_solved = PInt 0,
          medium_solved = PInt 0, hard_solved = PInt 0,
          contest_rating = PInt 0, contests_attended = PInt 0,
          top_percentage = PStr ''N/A''\<rparr>
   \<and> contest_of (PDict [(''userContestRanking'', PDict [(''globalRanking'', PInt 9)])])
       = PDict [(''globalRanking'', PInt 9)]
   \<and> parse_stats plain_runtime (PDict [(''userContestRanking'', PNone)])
     = Inr \<lparr>username = PStr ''N/A'', ranking = PStr ''N/A'',
          total_solved = PInt 0, easy_solved = PInt 0,
          medium_solved = PInt 0, hard_solved = PInt 0,
          contest_rating = PStr ''N/A'', contests_attended = PStr ''N/A'',
          top_percentage = PStr ''N/A''\<rparr>
   \<and> \<not> truthy (contest_of (PDict [(''userContestRanking'', PNone)]))"
proof -
  let ?d = "PDict [(''userContestRanking'', PDict [(''globalRanking'', PInt 9)])]"
  let ?n = "PDict [(''userContestRanking'', PNone)]"
  have e: "parse_stats plain_runtime ?d = Inr \<lparr>username = PStr ''N/A'', ranking = PStr ''N/A'',
          total_solved = PInt 0, easy_solved = PInt 0,
          medium_solved = PInt 0, hard_solved = PInt 0,
          contest_rating = PInt 0, contests_attended = PInt 0,
          top_percentage = PStr ''N/A''\<rparr>"
    by (simp add: parse_stats_def contest_fields_def)
  have n: "parse_stats plain_runtime ?n = Inr \<lparr>username = PStr ''N/A'', ranking = PStr ''N/A'',
          total_solved = PInt 0, easy_solved = PInt 0,
          medium_solved = PInt 0, hard_solved = PInt 0,
          contest_rating = PStr ''N/A'', contests_attended = PStr ''N/A'',
          top_percentage = PStr ''N/A''\<rparr>"
    by (simp add: parse_stats_def contest_fields_def)
  have c: "contest_of ?d = PDict [(''globalRanking'', PInt 9)]"
    by (simp add: contest_of_def entry_field_def)
  from extractor_contest_defaults [OF n] have "\<not> truthy (contest_of ?n)" by simp
  moreover from extractor_contest_defaults [OF e] c
  have "contest_rating \<lparr>username = PStr ''N/A'', ranking = PStr ''N/A'',
          total_solved = PInt 0, easy_solved = PInt 0,
          medium_solved = PInt 0, hard_solved = PInt 0,
          contest_rating = PInt 0, contests_attended = PInt 0,
          top_percentage = PStr ''N/A''\<rparr> = PInt 0" by simp
  ultimately show ?thesis using e n c by simp
qed

theorem extractor_contest_defaults_counterexample:
  "parse_stats plain_runtime
     (PDict [(''userContestRanking'', PDict [(''attendedContestsCount'', PStr ''N/A'')])])
     = Inr \<lparr>username = PStr ''N/A'', ranking = PStr ''N/A'',
          total_solved = PInt 0, easy_solved = PInt 0,
          medium_solved = PInt 0, hard_solved = PInt 0,
          contest_rating = PInt 0, contests_attended = PStr ''N/A'',
          top_percentage = PStr ''N/A''\<rparr>
   \<and> parse_stats plain_runtime (PDict [(''userContestRanking'', PBool False)])
     = Inr \<lparr>username = PStr ''N/A'', ranking = PStr ''N/A'',
          total_solved = PInt 0, easy_solved = PInt 0,
          medium_solved = PInt 0, hard_solved = PInt 0,
          contest_rating = PStr ''N/A'', contests_attended = PStr ''N/A'',
          top_percentage = PStr ''N/A''\<rparr>"
  by (simp add: parse_stats_def contest_fields_def)

text \<open>
  Claim C2 fails on the code: a sub-object that is null instead of absent, or a
  \<open>topPercentage\<close> that is not a number, makes the extractor raise.
\<close>

theorem extractor_raises:
  "parse_stats rt (PDict [(''matchedUser'', PNone), (''userContestRanking'', PNone)])
     = Inl AttributeError
   \<and> parse_stats rt (PDict [(''matchedUser'', PDict [(''profile'', PNone)])]) = Inl AttributeError
   \<and> parse_stats rt (PDict [(''userContestRanking'', PDict [(''topPercentage'', PStr ''top'')])])
     = Inl TypeError"
  by (simp add: parse_stats_def contest_fields_def)

text \<open>
  Claim C1 fails on the code: the record that the extractor produces for a data object
  without a profile has \<open>ranking = N/A\<close>, and the renderer formats the ranking with
  the thousands separator, which a string refuses.
\<close>

theorem renderer_raises_on_sentinel_ranking:
  "and_then (parse_stats rt (PDict [])) (generate_readme_content rt now) = Inl ValueError"
proof -
  have p: "parse_stats rt (PDict []) = Inr \<lparr>username = PStr ''N/A'', ranking = PStr ''N/A'',
          total_solved = PInt 0, easy_solved = PInt 0,
          medium_solved = PInt 0, hard_solved = PInt 0,
          contest_rating = PStr ''N/A'', contests_attended = PStr ''N/A'',
          top_percentage = PStr ''N/A''\<rparr>"
    by (simp add: parse_stats_def contest_fields_def)
  have b: "create_progress_bar rt (PInt 0) 830 20 = Inr (render_bar 20 (spec_filled 0 830 20) (spec_label 0 830))"
    "create_progress_bar rt (PInt 0) 1750 20 = Inr (render_bar 20 (spec_filled 0 1750 20) (spec_label 0 1750))"
    "create_progress_bar rt (PInt 0) 750 20 = Inr (render_bar 20 (spec_filled 0 750 20) (spec_label 0 750))"
    by (rule cpb_spec; simp add: small_bar)+
  show ?thesis by (simp add: p generate_readme_content_def b)
qed

section \<open>Claims about the fetcher\<close>

lemma fetch_log:
  "post_calls (snd (fetch_leetcode_stats env uname w)) = post_calls w @ [leetcode_request uname]"
  by (simp add: fetch_leetcode_stats_def Let_def)

lemma fetch_world:
  "snd (fetch_leetcode_stats env uname w) = w\<lparr>post_calls := post_calls w @ [leetcode_request uname]\<rparr>"
  by (simp add: fetch_leetcode_stats_def Let_def)


lemma fetch_no_reply:
  assumes "http_post env (leetcode_request uname) = Inl e"
  shows "fst (fetch_leetcode_stats env uname w) = Inl e"
  by (simp add: fetch_leetcode_stats_def Let_def assms)

lemma status_text: "int_text rt (uint (c :: 16 word)) = Inr (int_str (uint c))"
proof -
  have "uint c < 2 ^ 16" using uint_bounded [of c] by simp
  moreover have "0 \<le> uint c" by simp
  ultimately have "\<bar>uint c\<bar> < 1000000" by simp
  then show ?thesis by (rule int_text_million)
qed

lemma fetch_bad_status:
  assumes "http_post env (leetcode_request uname) = Inr r" "status_code r \<noteq> 200"
  shows "fst (fetch_leetcode_stats env uname w) =
           Inl (Exception (''Failed to fetch data: '' @ int_str (uint (status_code r))))"
  by (simp add: fetch_leetcode_stats_def Let_def assms status_text)

lemma fetch_ok_status:
  assumes "http_post env (leetcode_request uname) = Inr r" "status_code r = 200"
  shows "fst (fetch_leetcode_stats env uname w) =
           and_then (json_body r) (\<lambda>data.
           and_then (py_contains data ''errors'') (\<lambda>has_errors.
             if has_errors
             then and_then (py_getitem data ''errors'') (\<lambda>errors.
                  and_then (py_str (runtime env) errors) (\<lambda>payload.
                    Inl (Exception (''GraphQL Error: '' @ payload))))
             else py_getitem data ''data''))"
  by (simp add: fetch_leetcode_stats_def Let_def assms)

lemma has_key: "k \<in> fst ` set kvs \<longleftrightarrow> map_of kvs k \<noteq> None"
  by (simp add: map_of_eq_None_iff)

lemma raise_after: "and_then m (\<lambda>x. Inl (g x)) \<noteq> Inr d"
  by (cases m) simp_all

lemma body_result:
  "and_then (py_contains data ''errors'') (\<lambda>has_errors.
     if has_errors
     then and_then (py_getitem data ''errors'') (\<lambda>errors.
          and_then (py_str rt errors) (\<lambda>payload.
            Inl (Exception (''GraphQL Error: '' @ payload))))
     else py_getitem data ''data'') = Inr d
   \<longleftrightarrow> (\<exists>kvs. data = PDict kvs \<and> map_of kvs ''errors'' = None \<and> map_of kvs ''data'' = Some d)"
proof (cases data)
  case (PDict kvs)
  show ?thesis
    by (cases "map_of kvs ''errors''"; cases "map_of kvs ''data''")
      (simp_all add: PDict has_key raise_after)
next
  case (PList xs)
  then show ?thesis by (simp add: raise_after)
next
  case (PStr s)
  then show ?thesis by (simp add: raise_after)
qed simp_all

text \<open>
  Claim C5, as amended. The fetcher returns \<open>d\<close> exactly when the call is answered with
  status 200 and a body that decodes to a JSON object with no \<open>errors\<close> key and with a
  \<open>data\<close> key holding \<open>d\<close>. A status other than 200 makes it fail with an exception
  whose message carries the status code; a body object with an \<open>errors\<close> key makes it
  fail, with an exception whose message carries the error payload as \<^verbatim>\<open>str\<close> prints
  it. There is no retry: the fetcher calls \<^verbatim>\<open>requests.post\<close> once, whatever the
  outcome. Status 200 and no \<open>errors\<close> key do not suffice for a return: the body
  \<open>{}\<close> raises KeyError.
\<close>

theorem fetcher_contract:
  "(fst (fetch_leetcode_stats env uname w) = Inr d \<longleftrightarrow>
      (\<exists>r kvs. http_post env (leetcode_request uname) = Inr r \<and> status_code r = 200
         \<and> json_body r = Inr (PDict kvs)
         \<and> map_of kvs ''errors'' = None \<and> map_of kvs ''data'' = Some d))
   \<and> (\<forall>r. http_post env (leetcode_request uname) = Inr r \<and> status_code r \<noteq> 200 \<longrightarrow>
        fst (fetch_leetcode_stats env uname w) =
          Inl (Exception (''Failed to fetch data: '' @ int_str (uint (status_code r)))))
   \<and> (\<forall>r kvs errors. http_post env (leetcode_request uname) = Inr r \<and> status_code r = 200
         \<and> json_body r = Inr (PDict kvs) \<and> map_of kvs ''errors'' = Some errors \<longrightarrow>
        (\<exists>e. fst (fetch_leetcode_stats env uname w) = Inl e)
        \<and> (\<forall>payload. py_str (runtime env) errors = Inr payload \<longrightarrow>
             fst (fetch_leetcode_stats env uname w) =
               Inl (Exception (''GraphQL Error: '' @ payload))))
   \<and> post_calls (snd (fetch_leetcode_stats env uname w)) =
       post_calls w @ [leetcode_request uname]"
proof (intro conjI allI impI)
  show "fst (fetch_leetcode_stats env uname w) = Inr d \<longleftrightarrow>
      (\<exists>r kvs. http_post env (leetcode_request uname) = Inr r \<and> status_code r = 200
         \<and> json_body r = Inr (PDict kvs)
         \<and> map_of kvs ''errors'' = None \<and> map_of kvs ''data'' = Some d)"
  proof (cases "http_post env (leetcode_request uname)")
    case (Inl e)
    then show ?thesis by (simp add: fetch_no_reply)
  next
    case (Inr r)
    show ?thesis
    proof (cases "status_code r = 200")
      case False
      with Inr show ?thesis by (simp add: fetch_bad_status)
    next
      case True
      show ?thesis
      proof (cases "json_body r")
        case (Inl e)
        with Inr True show ?thesis by (simp add: fetch_ok_status)
      next
        case body: (Inr data)
        have "fst (fetch_leetcode_stats env uname w) = Inr d \<longleftrightarrow>
            (\<exists>kvs. data = PDict kvs \<and> map_of kvs ''errors'' = None \<and> map_of kvs ''data'' = Some d)"
          using body_result [of data "runtime env" d]
          by (simp add: fetch_ok_status [OF Inr True] body)
        then show ?thesis using Inr True body by auto
      qed
    qed
  qed
next
  fix r
  assume "http_post env (leetcode_request uname) = Inr r \<and> status_code r \<noteq> 200"
  then show "fst (fetch_leetcode_stats env uname w) =
          Inl (Exception (''Failed to fetch data: '' @ int_str (uint (status_code r))))"
    by (simp add: fetch_bad_status)
next
  fix r kvs errors
  assume a: "http_post env (leetcode_request uname) = Inr r \<and> status_code r = 200
         \<and> json_body r = Inr (PDict kvs) \<and> map_of kvs ''errors'' = Some errors"
  then have "fst (fetch_leetcode_stats env uname w) =
           and_then (json_body r) (\<lambda>data.
           and_then (py_contains data ''errors'') (\<lambda>has_errors.
             if has_errors
             then and_then (py_getitem data ''errors'') (\<lambda>errors.
                  and_then (py_str (runtime env) errors) (\<lambda>payload.
                    Inl (Exception (''GraphQL Error: '' @ payload))))
             else py_getitem data ''data''))"
    by (intro fetch_ok_status) simp_all
  with a have f: "fst (fetch_leetcode_stats env uname w) =
      and_then (py_str (runtime env) errors) (\<lambda>payload.
        Inl (Exception (''GraphQL Error: '' @ payload)))"
    by (simp add: has_key)
  show "\<exists>e. fst (fetch_leetcode_stats env uname w) = Inl e"
    unfolding f by (cases "py_str (runtime env) errors") simp_all
  fix payload
  assume "py_str (runtime env) errors = Inr payload"
  then show "fst (fetch_leetcode_stats env uname w) =
      Inl (Exception (''GraphQL Error: '' @ payload))"
    unfolding f by simp
next
  show "post_calls (snd (fetch_leetcode_stats env uname w)) =
       post_calls w @ [leetcode_request uname]"
    by (rule fetch_log)
qed

lemma int_str_403: "int_str 403 = ''403''"
  by code_simp

theorem fetcher_contract_witness:
  "fst (fetch_leetcode_stats
         (answering (Inr \<lparr>status_code = 403, json_body = Inl JSONDecodeError\<rparr>))
         ''alice'' (fresh_world (Some ''alice'')))
     = Inl (Exception ''Failed to fetch data: 403'')
   \<and> fst (fetch_leetcode_stats
         (answering (Inr \<lparr>status_code = 200,
                          json_body = Inr (PDict [(''data'', PDict [(''matchedUser'', PNone)])])\<rparr>))
         ''alice'' (fresh_world (Some ''alice'')))
     = Inr (PDict [(''matchedUser'', PNone)])
   \<and> fst (fetch_leetcode_stats
         (answering (Inr \<lparr>status_code = 200,
                          json_body = Inr (PDict [(''errors'', PStr ''no such user'')])\<rparr>))
         ''alice'' (fresh_world (Some ''alice'')))
     = Inl (Exception ''GraphQL Error: no such user'')
   \<and> post_calls (snd (fetch_leetcode_stats
         (answering (Inr \<lparr>status_code = 403, json_body = Inl JSONDecodeError\<rparr>))
         ''alice'' (fresh_world (Some ''alice''))))
     = [leetcode_request ''alice'']"
proof -
  let ?w = "fresh_world (Some ''alice'')"
  let ?a = "answering (Inr \<lparr>status_code = 403, json_body = Inl JSONDecodeError\<rparr>)"
  let ?b = "answering (Inr \<lparr>status_code = 200,
                          json_body = Inr (PDict [(''data'', PDict [(''matchedUser'', PNone)])])\<rparr>)"
  let ?c = "answering (Inr \<lparr>status_code = 200,
                          json_body = Inr (PDict [(''errors'', PStr ''no such user'')])\<rparr>)"
  from fetcher_contract [of ?a "''alice''" ?w]
  have 1: "fst (fetch_leetcode_stats ?a ''alice'' ?w) = Inl (Exception ''Failed to fetch data: 403'')"
    and 4: "post_calls (snd (fetch_leetcode_stats ?a ''alice'' ?w)) = [leetcode_request ''alice'']"
    by (simp_all add: answering_def int_str_403 fresh_world_def)
  from fetcher_contract [of ?b "''alice''" ?w "PDict [(''matchedUser'', PNone)]"]
  have 2: "fst (fetch_leetcode_stats ?b ''alice'' ?w) = Inr (PDict [(''matchedUser'', PNone)])"
    by (simp add: answering_def)
  from fetcher_contract [of ?c "''alice''" ?w]
  have 3: "fst (fetch_leetcode_stats ?c ''alice'' ?w) = Inl (Exception ''GraphQL Error: no such user'')"
    by (simp add: answering_def plain_runtime_def)
  from 1 2 3 4 show ?thesis by simp
qed

theorem fetcher_contract_counterexample:
  "fst (fetch_leetcode_stats
         (answering (Inr \<lparr>status_code = 200, json_body = Inr (PDict [])\<rparr>))
         ''alice'' (fresh_world (Some ''alice'')))
     = Inl KeyError"
  by (simp add: fetch_leetcode_stats_def Let_def answering_def)

section \<open>Claims about the orchestrator\<close>

lemma print_line_keeps [simp]:
  "post_calls (snd (print_line env s w)) = post_calls w"
  "files (snd (print_line env s w)) = files w"
  "opened_for_write (snd (print_line env s w)) = opened_for_write w"
  "environ (snd (print_line env s w)) = environ w"
  by (simp_all add: print_line_def)









lemma fetch_keeps [simp]:
  "files (snd (fetch_leetcode_stats env uname w)) = files w"
  "opened_for_write (snd (fetch_leetcode_stats env uname w)) = opened_for_write w"
  by (simp_all add: fetch_world)





end
